theory Spec2Isabelle
  imports
    Complex_Main
    "HOL-Library.Char_ord"
    "HOL-Library.List_Lexorder"
    "HOL-Library.Word"
begin

section \<open>Shared vocabulary\<close>

text \<open>
  Python's \<open>int\<close> is unbounded and is modelled by \<open>int\<close>; \<open>//\<close> is floor division, which is
  \<open>div\<close> on \<open>int\<close>. A \<open>str\<close> is a \<open>string\<close> whose characters are the code points below 256,
  \<open>bytes\<close> is a list of 8-bit words. A file-system path is the list of its components, so
  \<open>os.path.join(d, a, b, c)\<close> and \<open>d / a / b / c\<close> are both \<open>d @ [a, b, c]\<close> (the components
  appended here never start with a slash).
\<close>

type_synonym byte = "8 word"
type_synonym path = "string list"

datatype exn =
    RequestException
  | JSONDecodeError
  | ValueError
  | OverflowError
  | KeyError
  | TypeError
  | NotADirectoryError

text \<open>\<open>str(n)\<close> for an integer: decimal digits, a minus sign for a negative number.\<close>

definition digit_char :: "nat \<Rightarrow> char" where
  "digit_char d = ''0123456789'' ! d"

fun str_nat :: "nat \<Rightarrow> string" where
  "str_nat n = (if n < 10 then [digit_char n] else str_nat (n div 10) @ [digit_char (n mod 10)])"

declare str_nat.simps [simp del]

definition str_int :: "int \<Rightarrow> string" where
  "str_int i = (if i < 0 then CHR ''-'' # str_nat (nat (- i)) else str_nat (nat i))"

definition entry_name :: "int \<Rightarrow> string" where
  \<comment> \<open>\<open>f"{block_number}.rmp.lz4"\<close>\<close>
  "entry_name block_number = str_int block_number @ ''.rmp.lz4''"

section \<open>PathScheme\<close>

subsection \<open>check_block_completeness.py\<close>

definition expected_dir :: "int \<Rightarrow> int \<times> int" where
  "expected_dir block_number =
     (if block_number = 0 then (0, 0)
      else (((block_number - 1) div 1000000) * 1000000,
            ((block_number - 1) div 1000) * 1000))"

definition cache_path :: "path \<Rightarrow> int \<Rightarrow> path" where
  "cache_path blocks_dir block_number =
     (case expected_dir block_number of
        (m, t) \<Rightarrow> blocks_dir @ [str_int m, str_int t, entry_name block_number])"

subsection \<open>download_boundary_blocks.py\<close>

definition s3_key :: "int \<Rightarrow> string" where
  "s3_key block_number =
     (let millions = ((block_number - 1) div 1000000) * 1000000;
          thousands = ((block_number - 1) div 1000) * 1000
      in str_int millions @ ''/'' @ str_int thousands @ ''/'' @ entry_name block_number)"

definition cache_path_boundary :: "path \<Rightarrow> int \<Rightarrow> path" where
  "cache_path_boundary blocks_dir block_number =
     (let millions = ((block_number - 1) div 1000000) * 1000000;
          thousands = ((block_number - 1) div 1000) * 1000
      in blocks_dir @ [str_int millions, str_int thousands, entry_name block_number])"

subsection \<open>fetch_blocks_rpc.py\<close>

definition block_path :: "path \<Rightarrow> int \<Rightarrow> path" where
  "block_path blocks_dir block_num =
     (let m = (block_num - 1) div 1000000 * 1000000;
          t = (block_num - 1) div 1000 * 1000
      in blocks_dir @ [str_int m, str_int t, entry_name block_num])"

text \<open>The key of the bulk store written as a relative path: its components joined by slashes.\<close>

fun join_slash :: "string list \<Rightarrow> string" where
  "join_slash [] = []"
| "join_slash [c] = c"
| "join_slash (c # cs) = c @ ''/'' @ join_slash cs"

section \<open>BlockTranscoder: precompile table and fixed-width integers\<close>

text \<open>
  \<open>PRECOMPILE_TRANSITIONS\<close>: (threshold height, 20-byte address), newest first. The four
  addresses are 18 zero bytes followed by 08 13, 08 12, 08 11 and 08 10.
\<close>

definition PRECOMPILE_TRANSITIONS :: "(int \<times> byte list) list" where
  "PRECOMPILE_TRANSITIONS =
     [(44868476, replicate 18 0 @ [0x08, 0x13]),
      (42675776, replicate 18 0 @ [0x08, 0x12]),
      (41121887, replicate 18 0 @ [0x08, 0x11]),
      (0, replicate 18 0 @ [0x08, 0x10])]"

text \<open>The \<open>for\<close> loop of \<open>get_highest_precompile\<close>: \<open>None\<close> when it runs off the table.\<close>

fun precompile_scan :: "(int \<times> byte list) list \<Rightarrow> int \<Rightarrow> byte list option" where
  "precompile_scan [] block_num = None"
| "precompile_scan ((threshold, addr) # rest) block_num =
     (if block_num \<ge> threshold then Some addr else precompile_scan rest block_num)"

definition get_highest_precompile :: "int \<Rightarrow> byte list" where
  "get_highest_precompile block_num =
     (case precompile_scan PRECOMPILE_TRANSITIONS block_num of
        Some addr \<Rightarrow> addr
      | None \<Rightarrow> snd (last PRECOMPILE_TRANSITIONS))"

text \<open>
  \<open>int(s, base)\<close> for base 10 and 16, as CPython parses a \<open>str\<close>: white space is stripped
  at both ends (for code points below 256 these are 9 to 13, 32, 0x85 and 0xA0), then an
  optional sign, then for base 16 an optional \<open>0x\<close> or \<open>0X\<close> that may be followed by one
  underscore, then digits of the base with single underscores between them. Anything else is a
  \<open>ValueError\<close>, here \<open>None\<close>.
\<close>

definition is_space :: "char \<Rightarrow> bool" where
  "is_space c = (of_char c \<in> set [9, 10, 11, 12, 13, 32, 133, 160 :: nat])"

definition digit_value :: "nat \<Rightarrow> char \<Rightarrow> nat option" where
  "digit_value base c =
     (let n = (of_char c :: nat);
          d = (if 48 \<le> n \<and> n \<le> 57 then n - 48
               else if 97 \<le> n \<and> n \<le> 122 then n - 87
               else if 65 \<le> n \<and> n \<le> 90 then n - 55
               else 37)
      in if d < base then Some d else None)"

text \<open>
  The digit scan: \<open>prev_us\<close> says that the previous character was an underscore. It stops at
  the first character that is neither a digit nor an underscore and returns the value read and
  the rest of the input; a doubled or trailing underscore is an error.
\<close>

fun scan_digits :: "nat \<Rightarrow> bool \<Rightarrow> nat \<Rightarrow> string \<Rightarrow> (nat \<times> string) option" where
  "scan_digits base prev_us acc [] = (if prev_us then None else Some (acc, []))"
| "scan_digits base prev_us acc (c # cs) =
     (if c = CHR ''_'' then (if prev_us then None else scan_digits base True acc cs)
      else (case digit_value base c of
              Some d \<Rightarrow> scan_digits base False (acc * base + d) cs
            | None \<Rightarrow> if prev_us then None else Some (acc, c # cs)))"

definition strip_sign :: "string \<Rightarrow> int \<times> string" where
  "strip_sign s =
     (case s of
        c # r \<Rightarrow> if c = CHR ''+'' then (1, r) else if c = CHR ''-'' then (- 1, r) else (1, s)
      | [] \<Rightarrow> (1, s))"

definition strip_prefix :: "nat \<Rightarrow> string \<Rightarrow> string" where
  "strip_prefix base s =
     (case s of
        z # x # r \<Rightarrow>
          if base = 16 \<and> z = CHR ''0'' \<and> (x = CHR ''x'' \<or> x = CHR ''X'')
          then (case r of u # r' \<Rightarrow> if u = CHR ''_'' then r' else r | [] \<Rightarrow> r)
          else s
      | _ \<Rightarrow> s)"

definition py_int :: "nat \<Rightarrow> string \<Rightarrow> int option" where
  "py_int base h =
     (case strip_sign (dropWhile is_space h) of
        (sign, s) \<Rightarrow>
          (case strip_prefix base s of
             [] \<Rightarrow> None
           | c # cs \<Rightarrow>
               if digit_value base c = None then None
               else (case scan_digits base False 0 (c # cs) of
                       None \<Rightarrow> None
                     | Some (v, rest) \<Rightarrow>
                         if dropWhile is_space rest = [] then Some (sign * int v) else None)))"

text \<open>\<open>val.to_bytes(length, "big")\<close> for an unsigned conversion.\<close>

fun big_endian :: "nat \<Rightarrow> nat \<Rightarrow> byte list" where
  "big_endian 0 v = []"
| "big_endian (Suc n) v = big_endian n (v div 256) @ [of_nat (v mod 256)]"

definition to_bytes_big :: "int \<Rightarrow> int \<Rightarrow> exn + byte list" where
  "to_bytes_big val len =
     (if len < 0 then Inl ValueError
      else if val < 0 then Inl OverflowError
      else if val \<ge> 256 ^ nat len then Inl OverflowError
      else Inr (big_endian (nat len) (nat val)))"

text \<open>The value \<open>hex_to_bytes\<close> decodes: \<open>int(h, 16) if h and h != "0x" else 0\<close>.\<close>

definition hex_value :: "string \<Rightarrow> int option" where
  "hex_value h = (if h \<noteq> [] \<and> h \<noteq> ''0x'' then py_int 16 h else Some 0)"

definition hex_to_bytes :: "string \<Rightarrow> int \<Rightarrow> exn + byte list" where
  "hex_to_bytes h len =
     (case hex_value h of
        None \<Rightarrow> Inl ValueError
      | Some val \<Rightarrow> to_bytes_big val len)"

text \<open>The unsigned integer a big-endian byte string denotes.\<close>

definition from_bytes_big :: "byte list \<Rightarrow> nat" where
  "from_bytes_big bs = foldl (\<lambda>a b. a * 256 + unat b) 0 bs"

section \<open>LiveChainFetcher: JSON-RPC transport\<close>

text \<open>
  A decoded JSON value. An object is the list of the items of the Python \<open>dict\<close> (its keys are
  distinct); numbers are the integers, which is all the fetcher reads.
\<close>

datatype json =
    JNull
  | JBool bool
  | JInt int
  | JStr string
  | JArr "json list"
  | JObj "(string \<times> json) list"

text \<open>Python truthiness: \<open>not v\<close> holds for \<open>None\<close>, \<open>False\<close>, \<open>0\<close>, \<open>""\<close>, \<open>[]\<close> and \<open>{}\<close>.\<close>

fun truthy :: "json \<Rightarrow> bool" where
  "truthy JNull = False"
| "truthy (JBool b) = b"
| "truthy (JInt n) = (n \<noteq> 0)"
| "truthy (JStr s) = (s \<noteq> [])"
| "truthy (JArr xs) = (xs \<noteq> [])"
| "truthy (JObj kvs) = (kvs \<noteq> [])"

text \<open>\<open>d.get(key)\<close> on the items of a dict: \<open>None\<close> when the key is absent.\<close>

definition dict_get :: "(string \<times> json) list \<Rightarrow> string \<Rightarrow> json" where
  "dict_get d key = (case map_of d key of Some v \<Rightarrow> v | None \<Rightarrow> JNull)"

text \<open>
  A value used as a dict key: lists and dicts are unhashable (\<open>None\<close> here), and \<open>True\<close> and
  \<open>False\<close> are the same keys as \<open>1\<close> and \<open>0\<close>.
\<close>

fun dict_key :: "json \<Rightarrow> json option" where
  "dict_key JNull = Some JNull"
| "dict_key (JBool b) = Some (JInt (if b then 1 else 0))"
| "dict_key (JInt n) = Some (JInt n)"
| "dict_key (JStr s) = Some (JStr s)"
| "dict_key (JArr xs) = None"
| "dict_key (JObj kvs) = None"

definition MAX_RETRIES :: nat where "MAX_RETRIES = 5"
definition RETRY_DELAY :: nat where "RETRY_DELAY = 2"

text \<open>
  What one \<open>session.post\<close> with \<open>raise_for_status\<close> and \<open>resp.json()\<close> comes to: the request
  fails (connection error, timeout or HTTP error status, a \<open>RequestException\<close>), the body is
  not JSON (\<open>JSONDecodeError\<close>), or the body decodes to a value. \<open>rpc_call\<close> catches both
  exceptions.
\<close>

datatype http_outcome = PostFailed | BodyNotJson | Body json

text \<open>The body of the \<open>try\<close> in \<open>rpc_call\<close>: what it returns, or the exception it raises.\<close>

definition rpc_attempt :: "http_outcome \<Rightarrow> exn + json list" where
  "rpc_attempt out =
     (case out of
        PostFailed \<Rightarrow> Inl RequestException
      | BodyNotJson \<Rightarrow> Inl JSONDecodeError
      | Body results \<Rightarrow>
          (case results of
             JArr rs \<Rightarrow> Inr rs
           | JObj d \<Rightarrow> if ''error'' \<in> set (map fst d) then Inl RequestException else Inr [results]
           | _ \<Rightarrow> Inr [results]))"

text \<open>\<open>isinstance(results, dict) and "error" in results\<close>.\<close>

definition is_error_object :: "json \<Rightarrow> bool" where
  "is_error_object results = (case results of JObj d \<Rightarrow> ''error'' \<in> set (map fst d) | _ \<Rightarrow> False)"

datatype rpc_event = Post nat | SleepFor nat

text \<open>
  The loop \<open>for attempt in range(MAX_RETRIES)\<close>; \<open>post k\<close> is the outcome of the POST made at
  attempt \<open>k\<close>. Both exceptions of \<open>rpc_attempt\<close> are caught by the \<open>except\<close> clause. The result
  is the trace of POSTs and sleeps and what the call gives: \<open>Some (Inr rs)\<close> returned,
  \<open>Some (Inl e)\<close> raised, \<open>None\<close> when the loop runs out (no attempt left to make).
\<close>

fun rpc_loop :: "(nat \<Rightarrow> http_outcome) \<Rightarrow> nat list \<Rightarrow> rpc_event list \<times> (exn + json list) option" where
  "rpc_loop post [] = ([], None)"
| "rpc_loop post (attempt # rest) =
     (case rpc_attempt (post attempt) of
        Inr rs \<Rightarrow> ([Post attempt], Some (Inr rs))
      | Inl e \<Rightarrow>
          if attempt < MAX_RETRIES - 1
          then (let delay = RETRY_DELAY * 2 ^ attempt;
                    (evs, r) = rpc_loop post rest
                in (Post attempt # SleepFor delay # evs, r))
          else ([Post attempt], Some (Inl e)))"

definition rpc_call :: "(nat \<Rightarrow> http_outcome) \<Rightarrow> rpc_event list \<times> (exn + json list) option" where
  "rpc_call post = rpc_loop post [0..<MAX_RETRIES]"

section \<open>LiveChainFetcher: one batch\<close>

text \<open>\<open>hex(n)\<close>: lower-case digits after \<open>0x\<close>, a minus sign first for a negative number.\<close>

definition hex_char :: "nat \<Rightarrow> char" where
  "hex_char d = ''0123456789abcdef'' ! d"

fun hex_nat :: "nat \<Rightarrow> string" where
  "hex_nat n = (if n < 16 then [hex_char n] else hex_nat (n div 16) @ [hex_char (n mod 16)])"

declare hex_nat.simps [simp del]

definition py_hex :: "int \<Rightarrow> string" where
  "py_hex i = (if i < 0 then ''-0x'' @ hex_nat (nat (- i)) else ''0x'' @ hex_nat (nat i))"

definition block_request :: "nat \<Rightarrow> int \<Rightarrow> json" where
  "block_request i bnum =
     JObj [(''jsonrpc'', JStr ''2.0''),
           (''method'', JStr ''eth_getBlockByNumber''),
           (''params'', JArr [JStr (py_hex bnum), JBool True]),
           (''id'', JInt (int i * 2))]"

definition receipts_request :: "nat \<Rightarrow> int \<Rightarrow> json" where
  "receipts_request i bnum =
     JObj [(''jsonrpc'', JStr ''2.0''),
           (''method'', JStr ''eth_getBlockReceipts''),
           (''params'', JArr [JStr (py_hex bnum)]),
           (''id'', JInt (int i * 2 + 1))]"

definition build_batch :: "int list \<Rightarrow> json list" where
  "build_batch block_nums =
     concat (map (\<lambda>(i, bnum). [block_request i bnum, receipts_request i bnum])
                 (enumerate 0 block_nums))"

text \<open>
  \<open>by_id = {r["id"]: r for r in results}\<close>: a later response replaces an earlier one with the
  same id. \<open>r["id"]\<close> raises \<open>TypeError\<close> when \<open>r\<close> is not a dict and \<open>KeyError\<close> when it has no
  id; an unhashable id raises \<open>TypeError\<close>.
\<close>

definition response_key :: "json \<Rightarrow> exn + json" where
  "response_key r =
     (case r of
        JObj d \<Rightarrow>
          (case map_of d ''id'' of
             None \<Rightarrow> Inl KeyError
           | Some v \<Rightarrow> (case dict_key v of None \<Rightarrow> Inl TypeError | Some k \<Rightarrow> Inr k))
      | _ \<Rightarrow> Inl TypeError)"

definition response_items :: "json \<Rightarrow> (string \<times> json) list" where
  "response_items r = (case r of JObj d \<Rightarrow> d | _ \<Rightarrow> [])"




fun index_by_id ::
  "(json \<rightharpoonup> (string \<times> json) list) \<Rightarrow> json list \<Rightarrow> exn + (json \<rightharpoonup> (string \<times> json) list)" where
  "index_by_id by_id [] = Inr by_id"
| "index_by_id by_id (r # rs) =
     (case response_key r of
        Inl e \<Rightarrow> Inl e
      | Inr k \<Rightarrow> index_by_id (by_id(k \<mapsto> response_items r)) rs)"

text \<open>
  The local archive is a map from paths to file contents. Two things are parameters of the
  batch: \<open>transcode\<close>, which is \<open>rpc_to_nanoreth\<close> followed by the MessagePack and LZ4 codecs
  (\<open>None\<close> when any of them raises), and \<open>writable\<close>, which says whether creating the parent
  directories and writing the file at a path succeeds.
\<close>

type_synonym archive = "path \<rightharpoonup> byte list"
type_synonym transcoder = "json \<Rightarrow> json \<Rightarrow> byte list option"

text \<open>The two \<open>by_id.get(..., {})\<close> lookups and \<open>.get("result")\<close> of the loop body.\<close>

definition block_data_of :: "(json \<rightharpoonup> (string \<times> json) list) \<Rightarrow> nat \<Rightarrow> json" where
  "block_data_of by_id i =
     dict_get (case by_id (JInt (int i * 2)) of Some d \<Rightarrow> d | None \<Rightarrow> []) ''result''"

definition receipts_data_of :: "(json \<rightharpoonup> (string \<times> json) list) \<Rightarrow> nat \<Rightarrow> json" where
  "receipts_data_of by_id i =
     (let receipts_data =
            dict_get (case by_id (JInt (int i * 2 + 1)) of Some d \<Rightarrow> d | None \<Rightarrow> []) ''result''
      in if receipts_data = JNull then JArr [] else receipts_data)"

text \<open>One iteration of the second loop, on the accumulators \<open>(written, errors)\<close> and the archive.\<close>

definition process_height ::
  "transcoder \<Rightarrow> (path \<Rightarrow> bool) \<Rightarrow> path \<Rightarrow> (json \<rightharpoonup> (string \<times> json) list) \<Rightarrow>
   nat \<times> int \<Rightarrow> nat \<times> nat \<times> archive \<Rightarrow> nat \<times> nat \<times> archive" where
  "process_height transcode writable blocks_dir by_id ib acc =
     (case (ib, acc) of
        ((i, bnum), (written, errors, fs)) \<Rightarrow>
          let block_data = block_data_of by_id i in
          if \<not> truthy block_data then (written, errors + 1, fs)
          else
            (case transcode block_data (receipts_data_of by_id i) of
               None \<Rightarrow> (written, errors + 1, fs)
             | Some compressed \<Rightarrow>
                 let path = block_path blocks_dir bnum in
                 if writable path then (written + 1, errors, fs(path \<mapsto> compressed))
                 else (written, errors + 1, fs)))"

text \<open>
  What a height contributes, read off its own two responses: the bytes to store, when its block
  result is non-empty and the transcoder succeeds on it (with the receipts, or the empty list
  when the receipts result is null or absent); whether it ends up written; and the one write it
  then makes.
\<close>

definition height_payload ::
  "transcoder \<Rightarrow> (json \<rightharpoonup> (string \<times> json) list) \<Rightarrow> nat \<Rightarrow> byte list option" where
  "height_payload transcode by_id i =
     (if truthy (block_data_of by_id i)
      then transcode (block_data_of by_id i) (receipts_data_of by_id i)
      else None)"

definition height_written ::
  "transcoder \<Rightarrow> (path \<Rightarrow> bool) \<Rightarrow> path \<Rightarrow> (json \<rightharpoonup> (string \<times> json) list) \<Rightarrow>
   nat \<times> int \<Rightarrow> bool" where
  "height_written transcode writable blocks_dir by_id ib =
     (height_payload transcode by_id (fst ib) \<noteq> None \<and> writable (block_path blocks_dir (snd ib)))"

definition store_height ::
  "transcoder \<Rightarrow> path \<Rightarrow> (json \<rightharpoonup> (string \<times> json) list) \<Rightarrow> nat \<times> int \<Rightarrow> archive \<Rightarrow> archive" where
  "store_height transcode blocks_dir by_id ib fs =
     (case height_payload transcode by_id (fst ib) of
        Some compressed \<Rightarrow> fs(block_path blocks_dir (snd ib) \<mapsto> compressed)
      | None \<Rightarrow> fs)"

definition write_results ::
  "transcoder \<Rightarrow> (path \<Rightarrow> bool) \<Rightarrow> path \<Rightarrow> int list \<Rightarrow> archive \<Rightarrow> json list \<Rightarrow>
   exn + nat \<times> nat \<times> archive" where
  "write_results transcode writable blocks_dir block_nums fs results =
     (case index_by_id Map.empty results of
        Inl e \<Rightarrow> Inl e
      | Inr by_id \<Rightarrow>
          Inr (fold (process_height transcode writable blocks_dir by_id)
                    (enumerate 0 block_nums) (0, 0, fs)))"

text \<open>
  \<open>fetch_and_write_batch\<close>; \<open>server batch k\<close> is the outcome of the \<open>k\<close>-th POST of the request
  body \<open>batch\<close>.
\<close>

definition fetch_and_write_batch ::
  "(json list \<Rightarrow> nat \<Rightarrow> http_outcome) \<Rightarrow> transcoder \<Rightarrow> (path \<Rightarrow> bool) \<Rightarrow> path \<Rightarrow> int list \<Rightarrow>
   archive \<Rightarrow> exn + nat \<times> nat \<times> archive" where
  "fetch_and_write_batch server transcode writable blocks_dir block_nums fs =
     (let batch = build_batch block_nums in
      case snd (rpc_call (server batch)) of
        None \<Rightarrow> Inl TypeError
      | Some (Inl e) \<Rightarrow> Inl e
      | Some (Inr results) \<Rightarrow> write_results transcode writable blocks_dir block_nums fs results)"

section \<open>LiveChainFetcher: range and missing heights\<close>

text \<open>\<open>os.path.exists\<close> on the archive: a path exists when the archive has a file there.\<close>

definition path_exists :: "archive \<Rightarrow> path \<Rightarrow> bool" where
  "path_exists fs p = (fs p \<noteq> None)"

definition find_missing_blocks :: "archive \<Rightarrow> path \<Rightarrow> int \<Rightarrow> int \<Rightarrow> int list" where
  "find_missing_blocks fs blocks_dir start end =
     fold (\<lambda>bnum missing.
             if \<not> path_exists fs (block_path blocks_dir bnum) then missing @ [bnum] else missing)
          [start..end] []"

text \<open>
  The part of \<open>main\<close> that determines \<open>missing\<close>: with \<open>--scan-gaps\<close> it calls
  \<open>find_missing_blocks\<close>, without it runs the loop written out in the \<open>else\<close> branch.
\<close>

definition main_missing :: "bool \<Rightarrow> archive \<Rightarrow> path \<Rightarrow> int \<Rightarrow> int \<Rightarrow> int list" where
  "main_missing scan_gaps fs blocks_dir start end =
     (if scan_gaps then find_missing_blocks fs blocks_dir start end
      else fold (\<lambda>bnum missing.
                   if \<not> path_exists fs (block_path blocks_dir bnum) then missing @ [bnum]
                   else missing)
                [start..end] [])"

section \<open>CacheScanner: the latest local height\<close>

text \<open>
  A directory tree: a file, or a directory with its entries in the order the operating system
  lists them (the names are distinct).
\<close>

datatype node = File | Dir "(string \<times> node) list"

text \<open>
  \<open>str.isdigit\<close> on code points below 256: the string is not empty and every character is an
  ASCII digit or one of the superscript digits 0xB2, 0xB3, 0xB9 (which \<open>int\<close> rejects).
\<close>

definition isdigit :: "string \<Rightarrow> bool" where
  "isdigit s =
     (s \<noteq> [] \<and> list_all (\<lambda>c. (48 \<le> (of_char c :: nat) \<and> (of_char c :: nat) \<le> 57)
                              \<or> of_char c \<in> set [178, 179, 185 :: nat]) s)"

definition endswith :: "string \<Rightarrow> string \<Rightarrow> bool" where
  "endswith s ext = (length ext \<le> length s \<and> drop (length s - length ext) s = ext)"

text \<open>\<open>s.replace(old, "")\<close>: every occurrence of \<open>old\<close>, left to right, is removed.\<close>

function remove_all :: "string \<Rightarrow> string \<Rightarrow> string" where
  "remove_all old s =
     (if s = [] \<or> old = [] then s
      else if take (length old) s = old then remove_all old (drop (length old) s)
      else hd s # remove_all old (tl s))"
  by pat_completeness auto
termination
  by (relation "measure (\<lambda>(old, s). length s)") (auto simp: neq_Nil_conv)

declare remove_all.simps [simp del]

text \<open>
  \<open>sorted(names, key=int)\<close>: \<open>int\<close> is applied to every name first and raises \<open>ValueError\<close> on
  one it cannot read; the sort is stable.
\<close>

definition sorted_key_int :: "string list \<Rightarrow> exn + string list" where
  "sorted_key_int names =
     (if list_all (\<lambda>d. py_int 10 d \<noteq> None) names
      then Inr (sort_key (\<lambda>d. case py_int 10 d of Some k \<Rightarrow> k | None \<Rightarrow> 0) names)
      else Inl ValueError)"

text \<open>\<open>os.listdir\<close> of an entry of a directory listing.\<close>

definition listdir :: "node option \<Rightarrow> exn + (string \<times> node) list" where
  "listdir n = (case n of Some (Dir es) \<Rightarrow> Inr es | _ \<Rightarrow> Inl NotADirectoryError)"

text \<open>
  \<open>find_cache_latest\<close> of fetch_blocks_rpc.py. The two directory levels are sorted with
  \<open>key=int\<close>; the file names are sorted with no key, that is as strings.
\<close>

definition find_cache_latest :: "node \<Rightarrow> exn + int" where
  "find_cache_latest blocks_dir =
     (case listdir (Some blocks_dir) of
        Inl e \<Rightarrow> Inl e
      | Inr es \<Rightarrow>
     (case sorted_key_int (filter isdigit (map fst es)) of
        Inl e \<Rightarrow> Inl e
      | Inr millions \<Rightarrow>
     if millions = [] then Inr 0 else
     (case listdir (map_of es (last millions)) of
        Inl e \<Rightarrow> Inl e
      | Inr es_m \<Rightarrow>
     (case sorted_key_int (filter isdigit (map fst es_m)) of
        Inl e \<Rightarrow> Inl e
      | Inr thousands \<Rightarrow>
     if thousands = [] then Inr 0 else
     (case listdir (map_of es_m (last thousands)) of
        Inl e \<Rightarrow> Inl e
      | Inr es_t \<Rightarrow>
     (let files = sort (filter (\<lambda>f. endswith f ''.rmp.lz4'') (map fst es_t)) in
      if files = [] then Inr 0
      else (case py_int 10 (remove_all ''.rmp.lz4'' (last files)) of
              None \<Rightarrow> Inl ValueError
            | Some n \<Rightarrow> Inr n)))))))"

text \<open>
  \<open>pathlib\<close>: the suffix of a file name starts at its last dot, unless that dot is the first
  or the last character; the stem is what stands before the suffix.
\<close>

definition last_dot :: "string \<Rightarrow> nat option" where
  "last_dot name =
     (if CHR ''.'' \<in> set name
      then Some (length name - 1 - length (takeWhile (\<lambda>c. c \<noteq> CHR ''.'') (rev name)))
      else None)"

definition path_suffix :: "string \<Rightarrow> string" where
  "path_suffix name =
     (case last_dot name of
        Some i \<Rightarrow> if 0 < i \<and> i < length name - 1 then drop i name else []
      | None \<Rightarrow> [])"

definition path_stem :: "string \<Rightarrow> string" where
  "path_stem name =
     (case last_dot name of
        Some i \<Rightarrow> if 0 < i \<and> i < length name - 1 then take i name else name
      | None \<Rightarrow> name)"

text \<open>The innermost loop of \<open>find_latest_local_block\<close>, on one entry of a thousands directory.\<close>

definition scan_file :: "string \<Rightarrow> int \<Rightarrow> int" where
  "scan_file name best =
     (if path_suffix name = ''.lz4''
      then (case py_int 10 (takeWhile (\<lambda>c. c \<noteq> CHR ''.'') (path_stem name)) of
              Some bn \<Rightarrow> if bn > best then bn else best
            | None \<Rightarrow> best)
      else best)"

text \<open>
  A loop over \<open>sorted(d.iterdir())\<close> that skips every entry that is not a directory with an
  all-digit name and runs \<open>body\<close> on the entries of the others.
\<close>

definition for_digit_dirs ::
  "((string \<times> node) list \<Rightarrow> int \<Rightarrow> int) \<Rightarrow> (string \<times> node) list \<Rightarrow> int \<Rightarrow> int" where
  "for_digit_dirs body es best =
     fold (\<lambda>(name, n) best.
             case n of
               Dir sub \<Rightarrow> if isdigit name then body sub best else best
             | File \<Rightarrow> best)
          (sort_key fst es) best"

definition find_latest_local_block :: "node \<Rightarrow> exn + int" where
  "find_latest_local_block blocks_dir =
     (case listdir (Some blocks_dir) of
        Inl e \<Rightarrow> Inl e
      | Inr es \<Rightarrow>
          Inr (for_digit_dirs
                 (for_digit_dirs (\<lambda>files best. fold (\<lambda>(name, n). scan_file name) files best))
                 es 0))"

section \<open>LiveChainFetcher: the batch loop and its pacing\<close>

text \<open>
  The delay is a (finite) Python \<open>float\<close> and is modelled by the real number it denotes.
  Comparisons, \<open>min\<close>, \<open>max\<close> and doubling are exact on floats; the product
  \<open>current_delay * 0.8\<close> is rounded, so the model takes the rounding as a parameter:
  \<open>rounded x\<close> is the float the multiplication returns when the exact product is \<open>x\<close>
  (the identity in exact arithmetic).
\<close>

record pacing =
  current_delay :: real
  consecutive_ok :: nat
  total_written :: nat
  total_errors :: nat

definition initial_pacing :: "real \<Rightarrow> pacing" where
  "initial_pacing delay =
     \<lparr>current_delay = delay, consecutive_ok = 0, total_written = 0, total_errors = 0\<rparr>"

text \<open>The \<open>try\<close> branch after a batch returned \<open>(written, errors)\<close>.\<close>

definition batch_succeeded :: "(real \<Rightarrow> real) \<Rightarrow> real \<Rightarrow> nat \<Rightarrow> nat \<Rightarrow> pacing \<Rightarrow> pacing" where
  "batch_succeeded rounded delay written errors st =
     (let st1 = st\<lparr>total_written := total_written st + written,
                    total_errors := total_errors st + errors,
                    consecutive_ok := consecutive_ok st + 1\<rparr>
      in if consecutive_ok st1 \<ge> 5 \<and> current_delay st1 > delay
         then st1\<lparr>current_delay := max delay (rounded (current_delay st1 * 0.8))\<rparr>
         else st1)"

text \<open>The \<open>except requests.RequestException\<close> branch.\<close>

definition batch_failed :: "nat \<Rightarrow> pacing \<Rightarrow> pacing" where
  "batch_failed batch_len st =
     st\<lparr>current_delay := min (current_delay st * 2) 120,
        consecutive_ok := 0,
        total_errors := total_errors st + batch_len\<rparr>"

text \<open>
  What \<open>except requests.RequestException\<close> catches. The \<open>JSONDecodeError\<close> that \<open>resp.json()\<close>
  raises is \<open>requests.exceptions.JSONDecodeError\<close>, a subclass of \<open>RequestException\<close> as well
  as of \<open>json.JSONDecodeError\<close>.
\<close>

definition is_request_exception :: "exn \<Rightarrow> bool" where
  "is_request_exception e = (e = RequestException \<or> e = JSONDecodeError)"

text \<open>
  The \<open>try\<close> statement as a whole: any other exception is not caught and leaves \<open>main\<close>.
\<close>

definition handle_batch ::
  "(real \<Rightarrow> real) \<Rightarrow> real \<Rightarrow> int list \<Rightarrow> exn + nat \<times> nat \<Rightarrow> pacing \<Rightarrow> exn + pacing" where
  "handle_batch rounded delay batch res st =
     (case res of
        Inr (written, errors) \<Rightarrow> Inr (batch_succeeded rounded delay written errors st)
      | Inl e \<Rightarrow> if is_request_exception e then Inr (batch_failed (length batch) st) else Inl e)"

datatype event = BatchEv "int list" | SleepEv real

text \<open>
  The loop \<open>for i in range(0, len(missing), batch_size)\<close> for a positive batch size. \<open>fetch\<close>
  stands for \<open>fetch_and_write_batch\<close> with everything it reads and changes (the node, the
  archive) in the state \<open>w\<close>. \<open>time.sleep\<close> raises \<open>ValueError\<close> for a negative delay, which
  ends \<open>main\<close>. The result is the trace of batches and sleeps, the exception that ended the loop
  if any, and the final states.
\<close>

function batch_loop ::
  "('w \<Rightarrow> int list \<Rightarrow> (exn + nat \<times> nat) \<times> 'w) \<Rightarrow> (real \<Rightarrow> real) \<Rightarrow> real \<Rightarrow> nat \<Rightarrow> int list \<Rightarrow>
   nat \<Rightarrow> pacing \<Rightarrow> 'w \<Rightarrow> event list \<times> exn option \<times> pacing \<times> 'w" where
  "batch_loop fetch rounded delay batch_size missing i st w =
     (if batch_size = 0 \<or> length missing \<le> i then ([], None, st, w)
      else
        (let batch = take batch_size (drop i missing);
             (res, w') = fetch w batch
         in case handle_batch rounded delay batch res st of
              Inl e \<Rightarrow> ([BatchEv batch], Some e, st, w')
            | Inr st' \<Rightarrow>
                if i + length batch < length missing
                then (if current_delay st' < 0 then ([BatchEv batch], Some ValueError, st', w')
                      else (let (evs, r, st'', w'') =
                                  batch_loop fetch rounded delay batch_size missing
                                    (i + batch_size) st' w'
                            in (BatchEv batch # SleepEv (current_delay st') # evs, r, st'', w'')))
                else (let (evs, r, st'', w'') =
                            batch_loop fetch rounded delay batch_size missing
                              (i + batch_size) st' w'
                      in (BatchEv batch # evs, r, st'', w''))))"
  by pat_completeness auto
termination
  by (relation "measure (\<lambda>(fetch, rounded, delay, batch_size, missing, i, st, w).
        length missing - i)") auto

declare batch_loop.simps [simp del]

text \<open>
  The loop as \<open>main\<close> starts it. \<open>range\<close> raises \<open>ValueError\<close> for a step of zero and is empty
  for a negative step.
\<close>

definition run_batches ::
  "('w \<Rightarrow> int list \<Rightarrow> (exn + nat \<times> nat) \<times> 'w) \<Rightarrow> (real \<Rightarrow> real) \<Rightarrow> real \<Rightarrow> int \<Rightarrow> int list \<Rightarrow>
   'w \<Rightarrow> event list \<times> exn option \<times> pacing \<times> 'w" where
  "run_batches fetch rounded delay batch_size missing w =
     (if batch_size = 0 then ([], Some ValueError, initial_pacing delay, w)
      else if batch_size < 0 then ([], None, initial_pacing delay, w)
      else batch_loop fetch rounded delay (nat batch_size) missing 0 (initial_pacing delay) w)"

text \<open>
  The call \<open>fetch_and_write_batch(session, args.rpc, args.blocks_dir, batch)\<close> of the loop, on
  the archive as the state: an exception leaves the archive as it was (it is raised before
  the first height is handled).
\<close>

definition main_fetch ::
  "(json list \<Rightarrow> nat \<Rightarrow> http_outcome) \<Rightarrow> transcoder \<Rightarrow> (path \<Rightarrow> bool) \<Rightarrow> path \<Rightarrow>
   archive \<Rightarrow> int list \<Rightarrow> (exn + nat \<times> nat) \<times> archive" where
  "main_fetch server transcode writable blocks_dir fs batch =
     (case fetch_and_write_batch server transcode writable blocks_dir batch fs of
        Inl e \<Rightarrow> (Inl e, fs)
      | Inr (written, errors, fs') \<Rightarrow> (Inr (written, errors), fs'))"

text \<open>
  A trace in which sleeps stand only between batches: it is empty, or it starts and ends with a
  batch and batches and sleeps alternate.
\<close>

fun sleeps_between :: "event list \<Rightarrow> bool" where
  "sleeps_between [] = True"
| "sleeps_between [BatchEv b] = True"
| "sleeps_between (BatchEv b # SleepEv d # BatchEv b' # evs) = sleeps_between (BatchEv b' # evs)"
| "sleeps_between evs = False"

fun slept :: "event list \<Rightarrow> real list" where
  "slept [] = []"
| "slept (SleepEv d # evs) = d # slept evs"
| "slept (BatchEv b # evs) = slept evs"

section \<open>PathScheme: results\<close>

lemmas py_int_defs =
  py_int_def strip_sign_def strip_prefix_def is_space_def digit_value_def

lemma str_int_0: "str_int 0 = ''0''"
  by (simp add: str_int_def str_nat.simps digit_char_def)

lemma str_int_neg_thousand: "str_int (- 1000) = ''-1000''"
  by (simp add: str_int_def str_nat.simps digit_char_def)

lemma str_int_neg_million: "str_int (- 1000000) = ''-1000000''"
  by (simp add: str_int_def str_nat.simps digit_char_def)

text \<open>
  From height 1 on the three scripts address an entry identically: the local paths of all
  three are equal and the bulk-store key is that path relative to the archive root.
\<close>

lemma path_scheme_agree_from_1:
  assumes "1 \<le> h"
  shows "cache_path d h = block_path d h"
    and "cache_path_boundary d h = block_path d h"
    and "s3_key h = join_slash (block_path [] h)"
  using assms
  by (simp_all add: cache_path_def block_path_def cache_path_boundary_def s3_key_def
      expected_dir_def Let_def)

text \<open>
  C1. The claim that the path-addressing function is identical in every component, and that all
  three map height 0 to the buckets (0, 0), evaluated at height 0: \<open>expected_dir\<close> and
  \<open>cache_path\<close> of check_block_completeness.py special-case height 0 and give (0, 0), while
  \<open>s3_key\<close> and \<open>cache_path\<close> of download_boundary_blocks.py and \<open>block_path\<close> of
  fetch_blocks_rpc.py floor-divide \<open>-1\<close> and give the buckets (-1000000, -1000).
\<close>

theorem path_scheme_height_0:
  "expected_dir 0 = (0, 0)
   \<and> cache_path d 0 = d @ [''0'', ''0'', ''0.rmp.lz4'']
   \<and> s3_key 0 = ''-1000000/-1000/0.rmp.lz4''
   \<and> cache_path_boundary d 0 = d @ [''-1000000'', ''-1000'', ''0.rmp.lz4'']
   \<and> block_path d 0 = d @ [''-1000000'', ''-1000'', ''0.rmp.lz4'']
   \<and> cache_path d 0 \<noteq> block_path d 0"
  by (simp add: expected_dir_def cache_path_def s3_key_def cache_path_boundary_def
      block_path_def entry_name_def str_int_0 str_int_neg_thousand str_int_neg_million)

text \<open>
  C2. For every height \<open>h \<ge> 1\<close>, \<open>expected_dir h\<close> is
  \<open>(floor ((h-1)/1000000) * 1000000, floor ((h-1)/1000) * 1000)\<close>, with the quotients taken in
  the reals; \<open>expected_dir 0 = (0, 0)\<close>; and height 45,000,000 lies in the thousands bucket
  44,999,000, not 45,000,000.
\<close>

theorem expected_dir_floor:
  "(1 \<le> h \<longrightarrow>
      expected_dir h =
        (\<lfloor>real_of_int (h - 1) / 1000000\<rfloor> * 1000000, \<lfloor>real_of_int (h - 1) / 1000\<rfloor> * 1000))
   \<and> expected_dir 0 = (0, 0)
   \<and> snd (expected_dir 45000000) = 44999000
   \<and> snd (expected_dir 45000000) \<noteq> 45000000"
proof -
  have m: "\<lfloor>real_of_int (h - 1) / 1000000\<rfloor> = (h - 1) div 1000000"
    using floor_divide_of_int_eq [of "h - 1" 1000000, where ?'a = real] by simp
  have t: "\<lfloor>real_of_int (h - 1) / 1000\<rfloor> = (h - 1) div 1000"
    using floor_divide_of_int_eq [of "h - 1" 1000, where ?'a = real] by simp
  show ?thesis
    unfolding m t by (simp add: expected_dir_def)
qed

theorem expected_dir_floor_witness:
  "(1::int) \<le> 2000 \<and> expected_dir 2000 = (0, 1000) \<and> expected_dir 0 = (0, 0)"
  using expected_dir_floor [of 2000] by simp

section \<open>BlockTranscoder: results\<close>

subsection \<open>Precompile lookup\<close>

lemma precompile_scan_find:
  "precompile_scan tbl h = map_option snd (find (\<lambda>(t, a). t \<le> h) tbl)"
  by (induction tbl) auto

lemma get_highest_precompile_cases:
  "get_highest_precompile h =
     (if 44868476 \<le> h then replicate 18 0 @ [0x08, 0x13]
      else if 42675776 \<le> h then replicate 18 0 @ [0x08, 0x12]
      else if 41121887 \<le> h then replicate 18 0 @ [0x08, 0x11]
      else replicate 18 0 @ [0x08, 0x10])"
  by (simp add: get_highest_precompile_def PRECOMPILE_TRANSITIONS_def)

lemma precompile_oldest_first:
  "rev PRECOMPILE_TRANSITIONS =
     [(0, replicate 18 0 @ [0x08, 0x10]),
      (41121887, replicate 18 0 @ [0x08, 0x11]),
      (42675776, replicate 18 0 @ [0x08, 0x12]),
      (44868476, replicate 18 0 @ [0x08, 0x13])]"
  by (simp add: PRECOMPILE_TRANSITIONS_def)

text \<open>
  C7, the claim as stated fails at height 41,121,887. In oldest-first order the table is
  0x..0810, 0x..0811, 0x..0812, 0x..0813; the third-oldest address is 0x..0812, and the lookup
  returns 0x..0811, the second-oldest (the third entry of the newest-first table).
\<close>

theorem precompile_third_oldest_counterexample:
  "get_highest_precompile 41121887 \<noteq> snd (rev PRECOMPILE_TRANSITIONS ! 2)
   \<and> get_highest_precompile 41121887 = snd (rev PRECOMPILE_TRANSITIONS ! 1)"
  unfolding precompile_oldest_first get_highest_precompile_cases by simp

text \<open>
  C7, amended. For every height \<open>h \<ge> 0\<close>, \<open>get_highest_precompile h\<close> is the address of the
  first entry, in newest-first table order, whose threshold is at most \<open>h\<close>. Heights 0 and
  41,121,886 resolve to the oldest address, height 41,121,887 to the second-oldest, and every
  height from 44,868,476 on to the newest.
\<close>

theorem get_highest_precompile_first_match:
  "(0 \<le> h \<longrightarrow>
      (\<exists>t a. find (\<lambda>(t, a). t \<le> h) PRECOMPILE_TRANSITIONS = Some (t, a)
             \<and> get_highest_precompile h = a))
   \<and> get_highest_precompile 0 = snd (rev PRECOMPILE_TRANSITIONS ! 0)
   \<and> get_highest_precompile 41121886 = snd (rev PRECOMPILE_TRANSITIONS ! 0)
   \<and> get_highest_precompile 41121887 = snd (rev PRECOMPILE_TRANSITIONS ! 1)
   \<and> (44868476 \<le> h \<longrightarrow> get_highest_precompile h = snd (PRECOMPILE_TRANSITIONS ! 0))"
proof -
  have first: "\<exists>t a. find (\<lambda>(t, a). t \<le> h) PRECOMPILE_TRANSITIONS = Some (t, a)
      \<and> get_highest_precompile h = a" if "0 \<le> h"
    using that
    by (simp add: get_highest_precompile_def precompile_scan_find PRECOMPILE_TRANSITIONS_def)
  have newest: "get_highest_precompile h = snd (PRECOMPILE_TRANSITIONS ! 0)" if "44868476 \<le> h"
    using that by (simp add: get_highest_precompile_cases PRECOMPILE_TRANSITIONS_def)
  have fixed: "get_highest_precompile 0 = snd (rev PRECOMPILE_TRANSITIONS ! 0)"
    "get_highest_precompile 41121886 = snd (rev PRECOMPILE_TRANSITIONS ! 0)"
    "get_highest_precompile 41121887 = snd (rev PRECOMPILE_TRANSITIONS ! 1)"
    unfolding precompile_oldest_first get_highest_precompile_cases by simp_all
  from first newest fixed show ?thesis by blast
qed

theorem get_highest_precompile_first_match_witness:
  "(0::int) \<le> 50000000 \<and> (44868476::int) \<le> 50000000
   \<and> find (\<lambda>(t, a). t \<le> 50000000) PRECOMPILE_TRANSITIONS
       = Some (44868476, replicate 18 0 @ [0x08, 0x13])
   \<and> get_highest_precompile 50000000 = replicate 18 0 @ [0x08, 0x13]"
  using get_highest_precompile_first_match [of 50000000]
  by (simp add: PRECOMPILE_TRANSITIONS_def)

subsection \<open>Fixed-width hex decoding\<close>

lemma length_big_endian: "length (big_endian n v) = n"
  by (induction n arbitrary: v) simp_all

lemma from_bytes_big_snoc: "from_bytes_big (bs @ [b]) = from_bytes_big bs * 256 + unat b"
  by (simp add: from_bytes_big_def)

lemma from_bytes_big_big_endian: "from_bytes_big (big_endian n v) = v mod 256 ^ n"
proof (induction n arbitrary: v)
  case 0
  show ?case by (simp add: from_bytes_big_def)
next
  case (Suc n)
  have low: "unat (of_nat (v mod 256) :: byte) = v mod 256"
    by (simp add: unat_of_nat)
  have "from_bytes_big (big_endian (Suc n) v) = (v div 256 mod 256 ^ n) * 256 + v mod 256"
    by (simp add: from_bytes_big_snoc Suc.IH low)
  also have "\<dots> = v mod (256 * 256 ^ n)"
    by (simp add: mod_mult2_eq)
  finally show ?case by simp
qed

lemma hex_to_bytes_minus_one:
  "hex_value ''-1'' = Some (- 1) \<and> hex_to_bytes ''-1'' 1 = Inl OverflowError"
  by (simp add: hex_to_bytes_def hex_value_def py_int_defs to_bytes_big_def)

text \<open>
  C10, the claim as stated fails on a signed input: \<open>int("-1", 16)\<close> is \<open>-1\<close>, which is less
  than \<open>256 ^ 1\<close>, and \<open>hex_to_bytes("-1", 1)\<close> raises \<open>OverflowError\<close> instead of returning one
  byte.
\<close>

theorem hex_to_bytes_negative_counterexample:
  "hex_value ''-1'' = Some (- 1) \<and> (- 1 :: int) < 256 ^ nat 1
   \<and> hex_to_bytes ''-1'' 1 = Inl OverflowError"
  using hex_to_bytes_minus_one by simp

text \<open>
  C10, amended. For every string \<open>h\<close> and byte width \<open>L \<ge> 0\<close>: when \<open>h\<close> decodes (\<open>""\<close> and
  \<open>"0x"\<close> decode to zero, every other string as \<open>int(h, 16)\<close> reads it) to a value \<open>v\<close> with
  \<open>0 \<le> v < 256 ^ L\<close>, \<open>hex_to_bytes h L\<close> returns exactly \<open>L\<close> bytes, the big-endian
  representation of \<open>v\<close>; when the value is negative or at least \<open>256 ^ L\<close> it raises
  \<open>OverflowError\<close>, and when \<open>h\<close> does not decode it raises \<open>ValueError\<close>; it never truncates.
\<close>

theorem hex_to_bytes_fixed_width:
  "0 \<le> L \<Longrightarrow>
     (case hex_value h of
        None \<Rightarrow> hex_to_bytes h L = Inl ValueError
      | Some v \<Rightarrow>
          if 0 \<le> v \<and> v < 256 ^ nat L
          then hex_to_bytes h L = Inr (big_endian (nat L) (nat v))
               \<and> length (big_endian (nat L) (nat v)) = nat L
               \<and> int (from_bytes_big (big_endian (nat L) (nat v))) = v
          else hex_to_bytes h L = Inl OverflowError)
     \<and> hex_value [] = Some 0 \<and> hex_value ''0x'' = Some 0"
proof -
  assume L: "0 \<le> L"
  have zero: "hex_value [] = Some 0" "hex_value ''0x'' = Some 0"
    by (simp_all add: hex_value_def)
  have main: "case hex_value h of
        None \<Rightarrow> hex_to_bytes h L = Inl ValueError
      | Some v \<Rightarrow>
          if 0 \<le> v \<and> v < 256 ^ nat L
          then hex_to_bytes h L = Inr (big_endian (nat L) (nat v))
               \<and> length (big_endian (nat L) (nat v)) = nat L
               \<and> int (from_bytes_big (big_endian (nat L) (nat v))) = v
          else hex_to_bytes h L = Inl OverflowError"
  proof (cases "hex_value h")
    case None
    then show ?thesis by (simp add: hex_to_bytes_def)
  next
    case (Some v)
    show ?thesis
    proof (cases "0 \<le> v \<and> v < 256 ^ nat L")
      case True
      then have "nat v < 256 ^ nat L"
        by (metis nat_less_iff of_nat_numeral of_nat_power)
      then have "from_bytes_big (big_endian (nat L) (nat v)) = nat v"
        by (simp add: from_bytes_big_big_endian)
      with True Some L show ?thesis
        by (simp add: hex_to_bytes_def to_bytes_big_def length_big_endian)
    next
      case False
      with Some L show ?thesis
        by (auto simp: hex_to_bytes_def to_bytes_big_def)
    qed
  qed
  from main zero show ?thesis by simp
qed

theorem hex_to_bytes_fixed_width_witness:
  "(0::int) \<le> 2 \<and> hex_value ''0x1f'' = Some 31 \<and> hex_to_bytes ''0x1f'' 2 = Inr [0, 0x1f]
   \<and> length [0, 0x1f :: byte] = nat 2 \<and> from_bytes_big [0, 0x1f] = 31"
proof -
  have v: "hex_value ''0x1f'' = Some 31"
    by (simp add: hex_value_def py_int_defs)
  have b: "big_endian 2 31 = [0, 0x1f]"
    by (simp add: numeral_2_eq_2)
  have f: "from_bytes_big [0, 0x1f] = 31"
    by (simp add: from_bytes_big_def)
  from hex_to_bytes_fixed_width [of 2 "''0x1f''"] have "hex_to_bytes ''0x1f'' 2 = Inr [0, 0x1f]"
    by (simp add: v b)
  with v f show ?thesis by simp
qed

section \<open>LiveChainFetcher: results on the transport\<close>

lemma attempts_list: "[0..<MAX_RETRIES] = [0, 1, 2, 3, 4]"
  by (simp add: MAX_RETRIES_def upt_conv_Cons)

lemma rpc_attempt_error_object:
  "is_error_object b \<Longrightarrow> rpc_attempt (Body b) = Inl RequestException"
  by (cases b) (simp_all add: is_error_object_def rpc_attempt_def)

lemma rpc_loop_retry:
  assumes "rpc_attempt (post a) = Inl e" and "a < MAX_RETRIES - 1"
  shows "rpc_loop post (a # rest) =
           (Post a # SleepFor (RETRY_DELAY * 2 ^ a) # fst (rpc_loop post rest),
            snd (rpc_loop post rest))"
  using assms by (simp add: split_def Let_def)

lemma rpc_loop_give_up:
  assumes "rpc_attempt (post a) = Inl e" and "\<not> a < MAX_RETRIES - 1"
  shows "rpc_loop post (a # rest) = ([Post a], Some (Inl e))"
  using assms by simp

text \<open>
  C3, the claim as stated fails: when the first response is a single error object and the
  second an (empty) array, \<open>rpc_call\<close> sleeps 2 seconds, posts again and returns the array; the
  protocol error is retried inside the call and never reaches the caller.
\<close>

theorem rpc_call_error_object_counterexample:
  "rpc_call (\<lambda>k. if k = 0 then Body (JObj [(''error'', JStr ''batch too large'')])
                  else Body (JArr []))
   = ([Post 0, SleepFor 2, Post 1], Some (Inr []))"
  unfolding rpc_call_def attempts_list
  by (simp add: rpc_attempt_def MAX_RETRIES_def RETRY_DELAY_def)

text \<open>
  C3, amended. When a batch RPC call returns a single error object instead of an array of
  responses, \<open>rpc_call\<close> raises the same exception as for a transport failure inside the retried
  block, so it is retried like a transport or decode failure: at every attempt before the last
  the call sleeps \<open>RETRY_DELAY * 2 ^ attempt\<close> seconds and posts again, and the error reaches
  the caller only when the last of the \<open>MAX_RETRIES\<close> attempts also fails (after sleeps of 2, 4,
  8 and 16 seconds when every response is the error object).
\<close>

theorem rpc_call_retries_error_object:
  "is_error_object b \<Longrightarrow>
     rpc_attempt (Body b) = rpc_attempt PostFailed
     \<and> (a < MAX_RETRIES - 1 \<and> post a = Body b \<longrightarrow>
          rpc_loop post [a..<MAX_RETRIES] =
            (Post a # SleepFor (RETRY_DELAY * 2 ^ a) # fst (rpc_loop post [Suc a..<MAX_RETRIES]),
             snd (rpc_loop post [Suc a..<MAX_RETRIES])))
     \<and> (post (MAX_RETRIES - 1) = Body b \<longrightarrow>
          rpc_loop post [MAX_RETRIES - 1..<MAX_RETRIES]
            = ([Post (MAX_RETRIES - 1)], Some (Inl RequestException)))
     \<and> ((\<forall>k<MAX_RETRIES. post k = Body b) \<longrightarrow>
          rpc_call post =
            ([Post 0, SleepFor 2, Post 1, SleepFor 4, Post 2, SleepFor 8, Post 3, SleepFor 16,
              Post 4], Some (Inl RequestException)))"
proof -
  assume b: "is_error_object b"
  have same: "rpc_attempt (Body b) = rpc_attempt PostFailed"
    using rpc_attempt_error_object [OF b] by (simp add: rpc_attempt_def)
  have step: "rpc_loop post [a..<MAX_RETRIES] =
            (Post a # SleepFor (RETRY_DELAY * 2 ^ a) # fst (rpc_loop post [Suc a..<MAX_RETRIES]),
             snd (rpc_loop post [Suc a..<MAX_RETRIES]))"
    if "a < MAX_RETRIES - 1" "post a = Body b"
  proof -
    have "[a..<MAX_RETRIES] = a # [Suc a..<MAX_RETRIES]"
      using that(1) by (simp add: upt_conv_Cons)
    moreover have "rpc_attempt (post a) = Inl RequestException"
      using that(2) rpc_attempt_error_object [OF b] by simp
    ultimately show ?thesis
      using rpc_loop_retry [of post a RequestException "[Suc a..<MAX_RETRIES]"] that(1) by simp
  qed
  have final: "rpc_loop post [MAX_RETRIES - 1..<MAX_RETRIES]
            = ([Post (MAX_RETRIES - 1)], Some (Inl RequestException))"
    if "post (MAX_RETRIES - 1) = Body b"
  proof -
    have "[MAX_RETRIES - 1..<MAX_RETRIES] = [MAX_RETRIES - 1]"
      by (simp add: MAX_RETRIES_def)
    moreover have "rpc_attempt (post (MAX_RETRIES - 1)) = Inl RequestException"
      using that rpc_attempt_error_object [OF b] by simp
    ultimately show ?thesis
      using rpc_loop_give_up [of post "MAX_RETRIES - 1" RequestException "[]"] by simp
  qed
  have always: "rpc_call post =
            ([Post 0, SleepFor 2, Post 1, SleepFor 4, Post 2, SleepFor 8, Post 3, SleepFor 16,
              Post 4], Some (Inl RequestException))"
    if "\<forall>k<MAX_RETRIES. post k = Body b"
  proof -
    have "rpc_attempt (post k) = Inl RequestException" if "k < 5" for k
      using that \<open>\<forall>k<MAX_RETRIES. post k = Body b\<close> rpc_attempt_error_object [OF b]
      by (simp add: MAX_RETRIES_def)
    then have "rpc_attempt (post 0) = Inl RequestException"
      "rpc_attempt (post 1) = Inl RequestException"
      "rpc_attempt (post 2) = Inl RequestException"
      "rpc_attempt (post 3) = Inl RequestException"
      "rpc_attempt (post 4) = Inl RequestException"
      by simp_all
    then show ?thesis
      unfolding rpc_call_def attempts_list
      by (simp add: MAX_RETRIES_def RETRY_DELAY_def)
  qed
  from same step final always show ?thesis by blast
qed

theorem rpc_call_retries_error_object_witness:
  "is_error_object (JObj [(''error'', JStr ''batch too large'')])
   \<and> rpc_call (\<lambda>k. Body (JObj [(''error'', JStr ''batch too large'')])) =
       ([Post 0, SleepFor 2, Post 1, SleepFor 4, Post 2, SleepFor 8, Post 3, SleepFor 16,
         Post 4], Some (Inl RequestException))"
proof -
  have e: "is_error_object (JObj [(''error'', JStr ''batch too large'')])"
    by (simp add: is_error_object_def)
  from rpc_call_retries_error_object
    [OF e, of 0 "\<lambda>k. Body (JObj [(''error'', JStr ''batch too large'')])"]
  show ?thesis using e by simp
qed

section \<open>LiveChainFetcher: results on one batch\<close>

subsection \<open>Request correlation\<close>






subsection \<open>Demultiplexing by id\<close>

lemma find_snoc:
  "find P (xs @ [x]) = (case find P xs of Some y \<Rightarrow> Some y | None \<Rightarrow> if P x then Some x else None)"
  by (induction xs) simp_all

lemma index_by_id_last_wins:
  "\<forall>r\<in>set rs. \<not> isl (response_key r) \<Longrightarrow>
     index_by_id m rs =
       Inr (\<lambda>k. case find (\<lambda>r. response_key r = Inr k) (rev rs) of
                   Some r \<Rightarrow> Some (response_items r)
                 | None \<Rightarrow> m k)"
proof (induction rs arbitrary: m)
  case Nil
  show ?case by simp
next
  case (Cons r rs)
  from Cons.prems obtain k0 where k0: "response_key r = Inr k0"
    by (cases "response_key r") auto
  from Cons.prems have rest: "\<forall>r\<in>set rs. \<not> isl (response_key r)" by simp
  have "index_by_id m (r # rs) = index_by_id (m(k0 \<mapsto> response_items r)) rs"
    using k0 by simp
  also have "\<dots> = Inr (\<lambda>k. case find (\<lambda>r. response_key r = Inr k) (rev rs) of
                   Some r \<Rightarrow> Some (response_items r)
                 | None \<Rightarrow> (m(k0 \<mapsto> response_items r)) k)"
    by (rule Cons.IH [OF rest])
  also have "(\<lambda>k. case find (\<lambda>r. response_key r = Inr k) (rev rs) of
                   Some r \<Rightarrow> Some (response_items r)
                 | None \<Rightarrow> (m(k0 \<mapsto> response_items r)) k)
      = (\<lambda>k. case find (\<lambda>r. response_key r = Inr k) (rev (r # rs)) of
                   Some r \<Rightarrow> Some (response_items r)
                 | None \<Rightarrow> m k)"
    using k0 by (auto simp: find_snoc fun_eq_iff split: option.splits)
  finally show ?case .
qed








lemma fetch_and_write_batch_posts:
  "fetch_and_write_batch server tr wr d nums fs =
     (case snd (rpc_call (server (build_batch nums))) of
        None \<Rightarrow> Inl TypeError
      | Some (Inl e) \<Rightarrow> Inl e
      | Some (Inr results) \<Rightarrow> write_results tr wr d nums fs results)"
  by (simp add: fetch_and_write_batch_def Let_def)



subsection \<open>Per-height isolation\<close>

lemma process_height_cases:
  "process_height tr wr d by_id ib (w, e, fs) =
     (if height_written tr wr d by_id ib
      then (w + 1, e, store_height tr d by_id ib fs)
      else (w, e + 1, fs))"
  by (cases ib)
    (auto simp: process_height_def height_written_def height_payload_def store_height_def
      Let_def split: option.splits)

lemma fold_process_height:
  "fold (process_height tr wr d by_id) ixs (w, e, fs) =
     (w + length (filter (height_written tr wr d by_id) ixs),
      e + length (filter (\<lambda>ib. \<not> height_written tr wr d by_id ib) ixs),
      fold (store_height tr d by_id) (filter (height_written tr wr d by_id) ixs) fs)"
  by (induction ixs arbitrary: w e fs) (simp_all add: process_height_cases)

lemma written_plus_errors:
  "length (filter P xs) + length (filter (\<lambda>x. \<not> P x) xs) = length xs"
  by (induction xs) simp_all

lemma index_by_id_total:
  "\<forall>r\<in>set rs. \<not> isl (response_key r) \<Longrightarrow> \<exists>by_id. index_by_id m rs = Inr by_id"
  using index_by_id_last_wins [of rs m] by blast

text \<open>
  C9, the claim as stated fails when the response array has an element without an id. The
  index of the responses is built before the loop over the heights and outside its \<open>try\<close>:
  with a good block and good receipts for height 7 and an error object without an id for
  height 8, \<open>fetch_and_write_batch\<close> raises \<open>KeyError\<close>; height 7 is not written and nothing
  is counted. Without that element height 7 is written and height 8 is counted as one error.
\<close>

theorem id_less_response_counterexample:
  "fetch_and_write_batch
     (\<lambda>batch k. Body (JArr
        [JObj [(''id'', JInt 0), (''result'', JObj [(''number'', JStr ''0x7'')])],
         JObj [(''id'', JInt 1), (''result'', JArr [])],
         JObj [(''error'', JStr ''unknown block'')]]))
     (\<lambda>b r. Some [1]) (\<lambda>p. True) [''blocks''] [7, 8] Map.empty
   = Inl KeyError
   \<and> fetch_and_write_batch
     (\<lambda>batch k. Body (JArr
        [JObj [(''id'', JInt 0), (''result'', JObj [(''number'', JStr ''0x7'')])],
         JObj [(''id'', JInt 1), (''result'', JArr [])]]))
     (\<lambda>b r. Some [1]) (\<lambda>p. True) [''blocks''] [7, 8] Map.empty
   = Inr (1, 1, [block_path [''blocks''] 7 \<mapsto> [1]])"
proof -
  have en: "enumerate 0 [7, 8 :: int] = [(0, 7), (1, 8)]"
    by (simp add: enumerate_eq_zip upt_conv_Cons)
  show ?thesis
    unfolding fetch_and_write_batch_def rpc_call_def attempts_list write_results_def en
    by (simp add: rpc_attempt_def response_key_def response_items_def process_height_def
        block_data_of_def receipts_data_of_def dict_get_def)
qed

text \<open>
  C9, amended. When every element of the response array is an object that carries a
  (hashable) id, the heights of a batch are handled independently. The batch returns as
  \<open>written\<close> the number of heights that are written and as \<open>errors\<close> the number of the others
  (so every height is counted exactly once), and the archive receives exactly the writes of
  the written heights, each with the bytes transcoded from its own pair of responses. A
  height whose block response is missing, has no result (an error response) or has an empty
  result is not written and adds one to \<open>errors\<close>, leaving the archive and the count of
  written heights as they were. A height whose receipts result is null or absent is transcoded
  with the empty receipts list and, when that and the write succeed, is written and adds
  nothing to \<open>errors\<close>. A height whose transcoding or write fails adds one to \<open>errors\<close> and
  changes nothing else.
\<close>

theorem per_height_failures_isolated:
  "(snd (rpc_call (server (build_batch nums))) = Some (Inr results)
      \<and> (\<forall>r\<in>set results. \<not> isl (response_key r)) \<longrightarrow>
      (case index_by_id Map.empty results of
         Inl x \<Rightarrow> False
       | Inr by_id \<Rightarrow>
           fetch_and_write_batch server tr wr d nums fs =
             Inr (length (filter (height_written tr wr d by_id) (enumerate 0 nums)),
                  length (filter (\<lambda>ib. \<not> height_written tr wr d by_id ib) (enumerate 0 nums)),
                  fold (store_height tr d by_id)
                       (filter (height_written tr wr d by_id) (enumerate 0 nums)) fs)))
   \<and> length (filter (height_written tr wr d by_id) (enumerate 0 nums))
       + length (filter (\<lambda>ib. \<not> height_written tr wr d by_id ib) (enumerate 0 nums))
       = length nums
   \<and> (by_id (JInt (int i * 2)) = None
        \<or> (\<exists>r. by_id (JInt (int i * 2)) = Some r \<and> \<not> truthy (dict_get r ''result''))
       \<longrightarrow> \<not> height_written tr wr d by_id (i, b)
           \<and> process_height tr wr d by_id (i, b) (w, e, fs) = (w, e + 1, fs))
   \<and> (truthy (block_data_of by_id i)
        \<and> (by_id (JInt (int i * 2 + 1)) = None
             \<or> (\<exists>r. by_id (JInt (int i * 2 + 1)) = Some r \<and> dict_get r ''result'' = JNull))
        \<and> tr (block_data_of by_id i) (JArr []) = Some c \<and> wr (block_path d b)
       \<longrightarrow> height_written tr wr d by_id (i, b)
           \<and> store_height tr d by_id (i, b) fs = fs(block_path d b \<mapsto> c)
           \<and> process_height tr wr d by_id (i, b) (w, e, fs) = (w + 1, e, fs(block_path d b \<mapsto> c)))
   \<and> (truthy (block_data_of by_id i)
        \<and> (tr (block_data_of by_id i) (receipts_data_of by_id i) = None \<or> \<not> wr (block_path d b))
       \<longrightarrow> \<not> height_written tr wr d by_id (i, b)
           \<and> process_height tr wr d by_id (i, b) (w, e, fs) = (w, e + 1, fs))"
proof (intro conjI impI)
  assume a: "snd (rpc_call (server (build_batch nums))) = Some (Inr results)
      \<and> (\<forall>r\<in>set results. \<not> isl (response_key r))"
  then obtain m where m: "index_by_id Map.empty results = Inr m"
    using index_by_id_total [of results Map.empty] by blast
  have "fetch_and_write_batch server tr wr d nums fs = write_results tr wr d nums fs results"
    using a by (simp add: fetch_and_write_batch_posts)
  also have "\<dots> = Inr (length (filter (height_written tr wr d m) (enumerate 0 nums)),
                  length (filter (\<lambda>ib. \<not> height_written tr wr d m ib) (enumerate 0 nums)),
                  fold (store_height tr d m)
                       (filter (height_written tr wr d m) (enumerate 0 nums)) fs)"
    using m by (simp add: write_results_def fold_process_height)
  finally show "case index_by_id Map.empty results of
         Inl x \<Rightarrow> False
       | Inr by_id \<Rightarrow>
           fetch_and_write_batch server tr wr d nums fs =
             Inr (length (filter (height_written tr wr d by_id) (enumerate 0 nums)),
                  length (filter (\<lambda>ib. \<not> height_written tr wr d by_id ib) (enumerate 0 nums)),
                  fold (store_height tr d by_id)
                       (filter (height_written tr wr d by_id) (enumerate 0 nums)) fs)"
    using m by simp
next
  show "length (filter (height_written tr wr d by_id) (enumerate 0 nums))
          + length (filter (\<lambda>ib. \<not> height_written tr wr d by_id ib) (enumerate 0 nums))
          = length nums"
    using written_plus_errors [of "height_written tr wr d by_id" "enumerate 0 nums"] by simp
next
  assume "by_id (JInt (int i * 2)) = None
        \<or> (\<exists>r. by_id (JInt (int i * 2)) = Some r \<and> \<not> truthy (dict_get r ''result''))"
  then have n: "\<not> truthy (block_data_of by_id i)"
    by (auto simp: block_data_of_def dict_get_def)
  then show "\<not> height_written tr wr d by_id (i, b)"
    by (simp add: height_written_def height_payload_def)
  from n show "process_height tr wr d by_id (i, b) (w, e, fs) = (w, e + 1, fs)"
    by (simp add: process_height_def)
next
  assume a: "truthy (block_data_of by_id i)
        \<and> (by_id (JInt (int i * 2 + 1)) = None
             \<or> (\<exists>r. by_id (JInt (int i * 2 + 1)) = Some r \<and> dict_get r ''result'' = JNull))
        \<and> tr (block_data_of by_id i) (JArr []) = Some c \<and> wr (block_path d b)"
  then have r: "receipts_data_of by_id i = JArr []"
    by (auto simp: receipts_data_of_def dict_get_def)
  with a show "height_written tr wr d by_id (i, b)"
    by (simp add: height_written_def height_payload_def)
  from a r show "store_height tr d by_id (i, b) fs = fs(block_path d b \<mapsto> c)"
    by (simp add: store_height_def height_payload_def)
  from a r show "process_height tr wr d by_id (i, b) (w, e, fs)
      = (w + 1, e, fs(block_path d b \<mapsto> c))"
    by (simp add: process_height_def)
next
  assume a: "truthy (block_data_of by_id i)
        \<and> (tr (block_data_of by_id i) (receipts_data_of by_id i) = None \<or> \<not> wr (block_path d b))"
  then show "\<not> height_written tr wr d by_id (i, b)"
    by (auto simp: height_written_def height_payload_def)
  from a show "process_height tr wr d by_id (i, b) (w, e, fs) = (w, e + 1, fs)"
    by (auto simp: process_height_def split: option.splits)
qed

theorem per_height_failures_isolated_witness:
  "fetch_and_write_batch
      (\<lambda>batch k. Body (JArr
         [JObj [(''id'', JInt 0), (''result'', JObj [(''number'', JStr ''0x7'')])],
          JObj [(''id'', JInt 1), (''result'', JNull)],
          JObj [(''id'', JInt 2), (''error'', JStr ''unknown block'')]]))
      (\<lambda>b r. if r = JArr [] then Some [1] else None) (\<lambda>p. True) [''blocks''] [7, 8] Map.empty
     = Inr (1, 1, [block_path [''blocks''] 7 \<mapsto> [1]])
   \<and> process_height (\<lambda>b r. if r = JArr [] then Some [1] else None) (\<lambda>p. True) [''blocks'']
        [JInt 0 \<mapsto> [(''id'', JInt 0), (''result'', JObj [(''number'', JStr ''0x7'')])],
         JInt 1 \<mapsto> [(''id'', JInt 1), (''result'', JNull)],
         JInt 2 \<mapsto> [(''id'', JInt 2), (''error'', JStr ''unknown block'')]]
        (1, 8) (1, 0, Map.empty) = (1, 1, Map.empty)"
proof -
  let ?tr = "\<lambda>(b::json) r. if r = JArr [] then Some [1 :: byte] else None"
  let ?wr = "\<lambda>p::path. True"
  let ?rs = "[JObj [(''id'', JInt 0), (''result'', JObj [(''number'', JStr ''0x7'')])],
       JObj [(''id'', JInt 1), (''result'', JNull)],
       JObj [(''id'', JInt 2), (''error'', JStr ''unknown block'')]]"
  let ?m = "[JInt 0 \<mapsto> [(''id'', JInt 0), (''result'', JObj [(''number'', JStr ''0x7'')])],
         JInt 1 \<mapsto> [(''id'', JInt 1), (''result'', JNull)],
         JInt 2 \<mapsto> [(''id'', JInt 2), (''error'', JStr ''unknown block'')]]"
  note t = per_height_failures_isolated
    [where server = "\<lambda>batch k. Body (JArr ?rs)" and nums = "[7, 8]" and results = ?rs
      and tr = ?tr and wr = ?wr and d = "[''blocks'']" and fs = Map.empty and by_id = ?m
      and i = 1 and b = 8 and w = 1 and e = 0]
  have rpc: "snd (rpc_call (\<lambda>k. Body (JArr ?rs))) = Some (Inr ?rs)"
    unfolding rpc_call_def attempts_list by (simp add: rpc_attempt_def)
  have wf: "\<forall>r\<in>set ?rs. \<not> isl (response_key r)"
    by (simp add: response_key_def)
  have idx: "index_by_id Map.empty ?rs = Inr ?m"
    by (simp add: response_key_def response_items_def)
  have h0: "height_written ?tr ?wr [''blocks''] ?m (0, 7)"
    by (simp add: height_written_def height_payload_def block_data_of_def receipts_data_of_def
        dict_get_def)
  have h1: "\<not> height_written ?tr ?wr [''blocks''] ?m (1, 8)"
    by (simp add: height_written_def height_payload_def block_data_of_def dict_get_def)
  have p0: "height_payload ?tr ?m 0 = Some [1]"
    by (simp add: height_payload_def block_data_of_def receipts_data_of_def dict_get_def)
  have en: "enumerate 0 [7, 8 :: int] = [(0, 7), (1, 8)]"
    by (simp add: enumerate_eq_zip upt_conv_Cons)
  have "case index_by_id Map.empty ?rs of
         Inl x \<Rightarrow> False
       | Inr by_id \<Rightarrow>
           fetch_and_write_batch (\<lambda>batch k. Body (JArr ?rs)) ?tr ?wr [''blocks''] [7, 8] Map.empty =
             Inr (length (filter (height_written ?tr ?wr [''blocks''] by_id) (enumerate 0 [7, 8])),
                  length (filter (\<lambda>ib. \<not> height_written ?tr ?wr [''blocks''] by_id ib)
                            (enumerate 0 [7, 8])),
                  fold (store_height ?tr [''blocks''] by_id)
                       (filter (height_written ?tr ?wr [''blocks''] by_id) (enumerate 0 [7, 8]))
                       Map.empty)"
    using t [THEN conjunct1, THEN mp, OF conjI [OF rpc wf]] .
  then have a: "fetch_and_write_batch (\<lambda>batch k. Body (JArr ?rs)) ?tr ?wr [''blocks''] [7, 8]
      Map.empty = Inr (1, 1, [block_path [''blocks''] 7 \<mapsto> [1]])"
    unfolding idx en using h0 h1 p0 by (simp add: store_height_def)
  have "?m (JInt (int 1 * 2)) = None
      \<or> (\<exists>r. ?m (JInt (int 1 * 2)) = Some r \<and> \<not> truthy (dict_get r ''result''))"
    by (simp add: dict_get_def)
  then have b: "process_height ?tr ?wr [''blocks''] ?m (1, 8) (1, 0, Map.empty)
      = (1, 0 + 1, Map.empty)"
    using t [THEN conjunct2, THEN conjunct2, THEN conjunct1] by blast
  from a b show ?thesis by simp
qed

section \<open>LiveChainFetcher: results on the batch loop\<close>

lemma batch_failed_keeps_floor:
  "0 \<le> delay \<Longrightarrow> delay \<le> 120 \<Longrightarrow> delay \<le> current_delay st \<Longrightarrow>
     delay \<le> current_delay (batch_failed n st)"
  by (simp add: batch_failed_def)

lemma batch_succeeded_keeps_floor:
  "delay \<le> current_delay st \<Longrightarrow>
     delay \<le> current_delay (batch_succeeded rounded delay wr er st)"
  by (simp add: batch_succeeded_def Let_def)

lemma handle_batch_keeps_floor:
  "0 \<le> delay \<Longrightarrow> delay \<le> 120 \<Longrightarrow> delay \<le> current_delay st \<Longrightarrow>
     handle_batch rounded delay batch res st = Inr st' \<Longrightarrow> delay \<le> current_delay st'"
  by (auto simp: handle_batch_def batch_failed_keeps_floor batch_succeeded_keeps_floor
      split: sum.splits if_splits)

lemma batch_loop_done:
  "batch_size = 0 \<or> length missing \<le> i \<Longrightarrow>
     batch_loop fetch rounded delay batch_size missing i st w = ([], None, st, w)"
  by (simp add: batch_loop.simps)

lemma batch_loop_abort:
  assumes "\<not> (batch_size = 0 \<or> length missing \<le> i)"
    and "handle_batch rounded delay (take batch_size (drop i missing))
           (fst (fetch w (take batch_size (drop i missing)))) st = Inl e"
  shows "batch_loop fetch rounded delay batch_size missing i st w =
           ([BatchEv (take batch_size (drop i missing))], Some e, st,
            snd (fetch w (take batch_size (drop i missing))))"
  using assms by (subst batch_loop.simps) (simp add: Let_def split_def)

lemma batch_loop_step:
  assumes "\<not> (batch_size = 0 \<or> length missing \<le> i)"
    and "handle_batch rounded delay (take batch_size (drop i missing))
           (fst (fetch w (take batch_size (drop i missing)))) st = Inr st'"
  shows "batch_loop fetch rounded delay batch_size missing i st w =
           (if i + batch_size < length missing
            then (if current_delay st' < 0
                  then ([BatchEv (take batch_size (drop i missing))], Some ValueError, st',
                        snd (fetch w (take batch_size (drop i missing))))
                  else (BatchEv (take batch_size (drop i missing)) # SleepEv (current_delay st')
                          # fst (batch_loop fetch rounded delay batch_size missing
                                 (i + batch_size) st'
                                 (snd (fetch w (take batch_size (drop i missing))))),
                        snd (batch_loop fetch rounded delay batch_size missing
                               (i + batch_size) st'
                               (snd (fetch w (take batch_size (drop i missing)))))))
            else ([BatchEv (take batch_size (drop i missing))], None, st',
                  snd (fetch w (take batch_size (drop i missing)))))"
proof -
  have more: "(i + length (take batch_size (drop i missing)) < length missing)
      = (i + batch_size < length missing)"
    using assms(1) by (auto simp: min_def)
  have last: "batch_loop fetch rounded delay batch_size missing (i + batch_size) st' w'
      = ([], None, st', w')" if "\<not> i + batch_size < length missing" for w'
    using that by (simp add: batch_loop_done)
  show ?thesis
    using assms more
    by (subst batch_loop.simps) (simp add: Let_def split_def last)
qed

lemma batch_loop_floor:
  assumes "0 \<le> delay" and "delay \<le> 120"
  shows "delay \<le> current_delay st \<Longrightarrow>
     delay \<le> current_delay
        (fst (snd (snd (batch_loop fetch rounded delay batch_size missing i st w))))
     \<and> (\<forall>d\<in>set (slept (fst (batch_loop fetch rounded delay batch_size missing i st w))).
           delay \<le> d)"
proof (induction "length missing - i" arbitrary: i st w rule: less_induct)
  case less
  let ?batch = "take batch_size (drop i missing)"
  show ?case
  proof (cases "batch_size = 0 \<or> length missing \<le> i")
    case True
    then show ?thesis
      using less.prems by (simp add: batch_loop_done)
  next
    case False
    show ?thesis
    proof (cases "handle_batch rounded delay ?batch (fst (fetch w ?batch)) st")
      case (Inl e)
      show ?thesis
        using less.prems
        by (simp add: batch_loop_abort [where fetch = fetch and w = w, OF False Inl])
    next
      case (Inr st')
      have floor': "delay \<le> current_delay st'"
        using handle_batch_keeps_floor [OF assms less.prems Inr] .
      have "length missing - (i + batch_size) < length missing - i"
        using False by linarith
      from less.hyps [OF this floor', of "snd (fetch w ?batch)"] floor'
      show ?thesis
        by (simp add: batch_loop_step [where fetch = fetch and w = w, OF False Inr])
    qed
  qed
qed

lemma sleeps_between_pause:
  "sleeps_between (BatchEv b # SleepEv d # evs) =
     (sleeps_between evs \<and> (\<exists>b' rest. evs = BatchEv b' # rest))"
proof (cases evs)
  case Nil
  then show ?thesis by simp
next
  case (Cons ev rest)
  then show ?thesis by (cases ev) simp_all
qed

lemma batch_loop_shape:
  assumes "0 < batch_size"
  shows "sleeps_between (fst (batch_loop fetch rounded delay batch_size missing i st w))
     \<and> (i < length missing \<longrightarrow>
          (\<exists>b rest. fst (batch_loop fetch rounded delay batch_size missing i st w)
                      = BatchEv b # rest))"
proof (induction "length missing - i" arbitrary: i st w rule: less_induct)
  case less
  let ?batch = "take batch_size (drop i missing)"
  show ?case
  proof (cases "batch_size = 0 \<or> length missing \<le> i")
    case True
    then show ?thesis
      using assms by (simp add: batch_loop_done)
  next
    case False
    show ?thesis
    proof (cases "handle_batch rounded delay ?batch (fst (fetch w ?batch)) st")
      case (Inl e)
      show ?thesis
        by (simp add: batch_loop_abort [where fetch = fetch and w = w, OF False Inl])
    next
      case (Inr st')
      let ?rest = "fst (batch_loop fetch rounded delay batch_size missing (i + batch_size) st'
                       (snd (fetch w ?batch)))"
      have "length missing - (i + batch_size) < length missing - i"
        using False by linarith
      from less.hyps [OF this, of st' "snd (fetch w ?batch)"]
      have ih: "sleeps_between ?rest"
        "i + batch_size < length missing \<longrightarrow> (\<exists>b rest. ?rest = BatchEv b # rest)"
        by simp_all
      then show ?thesis
        by (auto simp: batch_loop_step [where fetch = fetch and w = w, OF False Inr]
            sleeps_between_pause)
    qed
  qed
qed

lemma always_failing_run:
  "run_batches (\<lambda>w b. (Inl RequestException, w)) rounded 200 1 [1, 2] (0::nat) =
     ([BatchEv [1], SleepEv 120, BatchEv [2]], None,
      \<lparr>current_delay = 120, consecutive_ok = 0, total_written = 0, total_errors = 2\<rparr>, 0)"
  by (simp add: run_batches_def batch_loop.simps handle_batch_def batch_failed_def
      is_request_exception_def initial_pacing_def Let_def)

lemma recovering_run:
  "run_batches (\<lambda>w b. (if w = (0::nat) then Inl RequestException else Inr (length b, 0), Suc w))
      (\<lambda>x. x) 5 1 [1, 2, 3, 4, 5, 6, 7] 0 =
     ([BatchEv [1], SleepEv 10, BatchEv [2], SleepEv 10, BatchEv [3], SleepEv 10, BatchEv [4],
       SleepEv 10, BatchEv [5], SleepEv 10, BatchEv [6], SleepEv 8, BatchEv [7]],
      None,
      \<lparr>current_delay = 32 / 5, consecutive_ok = 6, total_written = 6, total_errors = 1\<rparr>,
      7)"
  by (simp add: run_batches_def batch_loop.simps handle_batch_def batch_failed_def
      batch_succeeded_def is_request_exception_def initial_pacing_def Let_def)

text \<open>
  In the loop of \<open>main\<close> a batch whose five responses are all not JSON is a failed batch: the
  exception \<open>rpc_call\<close> re-raises is caught and the delay backs off.
\<close>

lemma not_json_batch_backs_off:
  assumes "\<forall>k<MAX_RETRIES. server (build_batch batch) k = BodyNotJson"
  shows "handle_batch rounded delay batch
           (fst (main_fetch server transcode writable blocks_dir fs batch)) st
         = Inr (batch_failed (length batch) st)"
proof -
  have "rpc_attempt (server (build_batch batch) k) = Inl JSONDecodeError" if "k < 5" for k
    using that assms by (simp add: MAX_RETRIES_def rpc_attempt_def)
  then have "rpc_attempt (server (build_batch batch) 0) = Inl JSONDecodeError"
    "rpc_attempt (server (build_batch batch) 1) = Inl JSONDecodeError"
    "rpc_attempt (server (build_batch batch) 2) = Inl JSONDecodeError"
    "rpc_attempt (server (build_batch batch) 3) = Inl JSONDecodeError"
    "rpc_attempt (server (build_batch batch) 4) = Inl JSONDecodeError"
    by simp_all
  then have "snd (rpc_call (server (build_batch batch))) = Some (Inl JSONDecodeError)"
    unfolding rpc_call_def attempts_list
    by (simp add: MAX_RETRIES_def RETRY_DELAY_def)
  then show ?thesis
    by (simp add: main_fetch_def fetch_and_write_batch_def handle_batch_def
        is_request_exception_def)
qed

text \<open>
  C6, the claim as stated fails for a baseline above the cap of 120 seconds: with
  \<open>--delay 200\<close> a single failed batch sets the delay to \<open>min (400, 120) = 120\<close>, below the
  baseline, and that delay is slept before the next batch.
\<close>

theorem pacing_floor_counterexample:
  "current_delay (batch_failed 1 (initial_pacing 200)) = 120
   \<and> (120 :: real) < 200
   \<and> slept (fst (run_batches (\<lambda>w b. (Inl RequestException, w)) (\<lambda>x. x) 200 1 [1, 2] (0::nat)))
       = [120]"
  by (simp add: always_failing_run batch_failed_def initial_pacing_def)

text \<open>
  C6, amended. The batch loop starts from the pacing state \<open>(current_delay, consecutive_ok) =
  (baseline, 0)\<close> and, at each batch, continues from the state the outcome of that batch gives:
  a failed batch (a \<open>RequestException\<close>) sets \<open>current_delay\<close> to \<open>min (2 * current_delay, 120)\<close>
  and \<open>consecutive_ok\<close> to 0; a successful batch increments \<open>consecutive_ok\<close>, and when the
  incremented counter is at least 5 and \<open>current_delay\<close> is above the baseline,
  \<open>current_delay\<close> becomes \<open>max (baseline, 0.8 * current_delay)\<close> (the product as the float
  multiplication rounds it). When another batch follows, the loop sleeps the new
  \<open>current_delay\<close> and then runs that batch from the new state; after the last batch it does
  not sleep. Whenever the baseline lies between 0 and the cap of 120 seconds, both steps keep
  \<open>current_delay\<close> at or above the baseline, so the state the loop ends in and every delay it
  sleeps are at or above the baseline. For every baseline the delay is slept only between
  batches: the trace of the loop is empty or alternates batches and sleeps, starting and ending
  with a batch.
\<close>

theorem adaptive_pacing:
  "(0 < batch_size \<longrightarrow>
      run_batches fetch rounded delay batch_size missing w =
        batch_loop fetch rounded delay (nat batch_size) missing 0 (initial_pacing delay) w)
   \<and> current_delay (initial_pacing delay) = delay \<and> consecutive_ok (initial_pacing delay) = 0
   \<and> (0 < bs \<and> i < length missing \<and> fetch w (take bs (drop i missing)) = (res, w') \<longrightarrow>
        batch_loop fetch rounded delay bs missing i st w =
          (let batch = take bs (drop i missing);
               continue = (\<lambda>st'.
                 if i + bs < length missing
                 then (if current_delay st' < 0 then ([BatchEv batch], Some ValueError, st', w')
                       else (BatchEv batch # SleepEv (current_delay st')
                               # fst (batch_loop fetch rounded delay bs missing (i + bs) st' w'),
                             snd (batch_loop fetch rounded delay bs missing (i + bs) st' w')))
                 else ([BatchEv batch], None, st', w'))
           in case res of
                Inr (written, errors) \<Rightarrow> continue (batch_succeeded rounded delay written errors st)
              | Inl e \<Rightarrow>
                  if is_request_exception e then continue (batch_failed (length batch) st)
                  else ([BatchEv batch], Some e, st, w')))
   \<and> current_delay (batch_failed n st) = min (2 * current_delay st) 120
   \<and> consecutive_ok (batch_failed n st) = 0
   \<and> consecutive_ok (batch_succeeded rounded delay wr er st) = consecutive_ok st + 1
   \<and> current_delay (batch_succeeded rounded delay wr er st) =
        (if consecutive_ok st + 1 \<ge> 5 \<and> current_delay st > delay
         then max delay (rounded (0.8 * current_delay st)) else current_delay st)
   \<and> (0 \<le> delay \<and> delay \<le> 120 \<and> delay \<le> current_delay st \<longrightarrow>
         delay \<le> current_delay (batch_failed n st)
         \<and> delay \<le> current_delay (batch_succeeded rounded delay wr er st))
   \<and> (0 \<le> delay \<and> delay \<le> 120 \<longrightarrow>
         delay \<le> current_delay
            (fst (snd (snd (run_batches fetch rounded delay batch_size missing w))))
         \<and> (\<forall>d\<in>set (slept (fst (run_batches fetch rounded delay batch_size missing w))).
               delay \<le> d))
   \<and> sleeps_between (fst (run_batches fetch rounded delay batch_size missing w))"
proof (intro conjI impI)
  assume "0 < batch_size"
  then show "run_batches fetch rounded delay batch_size missing w =
        batch_loop fetch rounded delay (nat batch_size) missing 0 (initial_pacing delay) w"
    by (simp add: run_batches_def)
next
  show "current_delay (initial_pacing delay) = delay" "consecutive_ok (initial_pacing delay) = 0"
    by (simp_all add: initial_pacing_def)
next
  let ?batch = "take bs (drop i missing)"
  assume a: "0 < bs \<and> i < length missing \<and> fetch w ?batch = (res, w')"
  then have more: "\<not> (bs = 0 \<or> length missing \<le> i)" by simp
  from a have f: "fst (fetch w ?batch) = res" "snd (fetch w ?batch) = w'" by simp_all
  show "batch_loop fetch rounded delay bs missing i st w =
          (let batch = take bs (drop i missing);
               continue = (\<lambda>st'.
                 if i + bs < length missing
                 then (if current_delay st' < 0 then ([BatchEv batch], Some ValueError, st', w')
                       else (BatchEv batch # SleepEv (current_delay st')
                               # fst (batch_loop fetch rounded delay bs missing (i + bs) st' w'),
                             snd (batch_loop fetch rounded delay bs missing (i + bs) st' w')))
                 else ([BatchEv batch], None, st', w'))
           in case res of
                Inr (written, errors) \<Rightarrow> continue (batch_succeeded rounded delay written errors st)
              | Inl e \<Rightarrow>
                  if is_request_exception e then continue (batch_failed (length batch) st)
                  else ([BatchEv batch], Some e, st, w'))"
  proof (cases "handle_batch rounded delay ?batch (fst (fetch w ?batch)) st")
    case (Inl e)
    from batch_loop_abort [where fetch = fetch and w = w, OF more Inl] Inl f
    show ?thesis
      by (auto simp: handle_batch_def Let_def split: sum.splits if_splits)
  next
    case (Inr st')
    from batch_loop_step [where fetch = fetch and w = w, OF more Inr] Inr f
    show ?thesis
      by (auto simp: handle_batch_def Let_def split: sum.splits if_splits)
  qed
next
  show "current_delay (batch_failed n st) = min (2 * current_delay st) 120"
    "consecutive_ok (batch_failed n st) = 0"
    by (simp_all add: batch_failed_def mult.commute)
  show "consecutive_ok (batch_succeeded rounded delay wr er st) = consecutive_ok st + 1"
    by (simp add: batch_succeeded_def Let_def)
  show "current_delay (batch_succeeded rounded delay wr er st) =
        (if consecutive_ok st + 1 \<ge> 5 \<and> current_delay st > delay
         then max delay (rounded (0.8 * current_delay st)) else current_delay st)"
    by (simp add: batch_succeeded_def Let_def mult.commute)
next
  assume "0 \<le> delay \<and> delay \<le> 120 \<and> delay \<le> current_delay st"
  then show "delay \<le> current_delay (batch_failed n st)"
    "delay \<le> current_delay (batch_succeeded rounded delay wr er st)"
    by (simp_all add: batch_failed_keeps_floor batch_succeeded_keeps_floor)
next
  assume b: "0 \<le> delay \<and> delay \<le> 120"
  have start: "delay \<le> current_delay (initial_pacing delay)"
    by (simp add: initial_pacing_def)
  have loop: "delay \<le> current_delay (fst (snd (snd
          (batch_loop fetch rounded delay (nat batch_size) missing 0 (initial_pacing delay) w))))
     \<and> (\<forall>d\<in>set (slept (fst
          (batch_loop fetch rounded delay (nat batch_size) missing 0 (initial_pacing delay) w))).
           delay \<le> d)"
    using b start by (intro batch_loop_floor) simp_all
  from loop start
  show "delay \<le> current_delay
      (fst (snd (snd (run_batches fetch rounded delay batch_size missing w))))"
    by (simp add: run_batches_def)
  from loop
  show "\<forall>d\<in>set (slept (fst (run_batches fetch rounded delay batch_size missing w))). delay \<le> d"
    by (simp add: run_batches_def)
next
  show "sleeps_between (fst (run_batches fetch rounded delay batch_size missing w))"
  proof (cases "0 < batch_size")
    case True
    then have "0 < nat batch_size" by simp
    from batch_loop_shape [OF this, of fetch rounded delay missing 0 "initial_pacing delay" w] True
    show ?thesis by (simp add: run_batches_def)
  next
    case False
    then show ?thesis by (simp add: run_batches_def)
  qed
qed

theorem adaptive_pacing_witness:
  "(0 :: real) \<le> 5 \<and> (5 :: real) \<le> 120 \<and> (0 :: int) < 1
   \<and> run_batches
        (\<lambda>w b. (if w = (0::nat) then Inl RequestException else Inr (length b, 0), Suc w))
        (\<lambda>x. x) 5 1 [1, 2, 3, 4, 5, 6, 7] 0 =
       ([BatchEv [1], SleepEv 10, BatchEv [2], SleepEv 10, BatchEv [3], SleepEv 10, BatchEv [4],
         SleepEv 10, BatchEv [5], SleepEv 10, BatchEv [6], SleepEv 8, BatchEv [7]],
        None,
        \<lparr>current_delay = 32 / 5, consecutive_ok = 6, total_written = 6, total_errors = 1\<rparr>,
        7)
   \<and> (5 :: real) \<le> current_delay (fst (snd (snd (run_batches
        (\<lambda>w b. (if w = (0::nat) then Inl RequestException else Inr (length b, 0), Suc w))
        (\<lambda>x. x) 5 1 [1, 2, 3, 4, 5, 6, 7] 0))))
   \<and> sleeps_between (fst (run_batches
        (\<lambda>w b. (if w = (0::nat) then Inl RequestException else Inr (length b, 0), Suc w))
        (\<lambda>x. x) 5 1 [1, 2, 3, 4, 5, 6, 7] 0))
   \<and> current_delay (batch_succeeded (\<lambda>x. x) 5 1 0
        \<lparr>current_delay = 10, consecutive_ok = 4, total_written = 4, total_errors = 1\<rparr>) = 8
   \<and> consecutive_ok (batch_succeeded (\<lambda>x. x) 5 1 0
        \<lparr>current_delay = 10, consecutive_ok = 4, total_written = 4, total_errors = 1\<rparr>) = 5"
proof -
  let ?fetch = "\<lambda>w b. (if w = (0::nat) then Inl RequestException else Inr (length b, 0), Suc w)"
  let ?st = "\<lparr>current_delay = 10, consecutive_ok = 4, total_written = 4, total_errors = 1\<rparr>"
  note t = adaptive_pacing [of 1 ?fetch "\<lambda>x. x" 5 "[1, 2, 3, 4, 5, 6, 7]" 0 1 0
      "Inl RequestException" 1 ?st 1 1 0]
  have b: "(0 :: real) \<le> 5 \<and> (5 :: real) \<le> 120" by simp
  have floor: "(5 :: real) \<le> current_delay (fst (snd (snd (run_batches ?fetch (\<lambda>x. x) 5 1
        [1, 2, 3, 4, 5, 6, 7] 0))))"
    using t [THEN conjunct2, THEN conjunct2, THEN conjunct2, THEN conjunct2, THEN conjunct2,
        THEN conjunct2, THEN conjunct2, THEN conjunct2, THEN conjunct2, THEN conjunct1,
        THEN mp, OF b, THEN conjunct1] .
  have shape: "sleeps_between (fst (run_batches ?fetch (\<lambda>x. x) 5 1 [1, 2, 3, 4, 5, 6, 7] 0))"
    using t [THEN conjunct2, THEN conjunct2, THEN conjunct2, THEN conjunct2, THEN conjunct2,
        THEN conjunct2, THEN conjunct2, THEN conjunct2, THEN conjunct2, THEN conjunct2] .
  have ok: "consecutive_ok (batch_succeeded (\<lambda>x. x) 5 1 0 ?st) = 5"
    using t [THEN conjunct2, THEN conjunct2, THEN conjunct2, THEN conjunct2, THEN conjunct2,
        THEN conjunct2, THEN conjunct1] by simp
  have cd: "current_delay (batch_succeeded (\<lambda>x. x) 5 1 0 ?st) = 8"
    using t [THEN conjunct2, THEN conjunct2, THEN conjunct2, THEN conjunct2, THEN conjunct2,
        THEN conjunct2, THEN conjunct2, THEN conjunct1] by simp
  show ?thesis
    using floor shape ok cd recovering_run by (intro conjI) simp_all
qed

section \<open>LiveChainFetcher: results on the missing heights\<close>

lemma fold_append_filter:
  "fold (\<lambda>x acc. if P x then acc @ [x] else acc) xs acc = acc @ filter P xs"
  by (induction xs arbitrary: acc) simp_all

lemma main_missing_filter:
  "main_missing scan_gaps fs blocks_dir start end =
     filter (\<lambda>bnum. \<not> path_exists fs (block_path blocks_dir bnum)) [start..end]"
  by (simp add: main_missing_def find_missing_blocks_def fold_append_filter)

text \<open>Both modes run the same existence test on every height of the range.\<close>

lemma fast_mode_tests_existence:
  "main_missing False fs blocks_dir start end = main_missing True fs blocks_dir start end"
  by (simp add: main_missing_filter)

lemma entry_name_1_2: "entry_name 1 = ''1.rmp.lz4''" "entry_name 2 = ''2.rmp.lz4''"
  by (simp_all add: entry_name_def str_int_def str_nat.simps digit_char_def)

text \<open>
  C4. The claim that in fast mode (no \<open>--scan-gaps\<close>) the heights to fetch are the whole range
  whatever exists locally, evaluated on the range 1 to 2 with the entry of height 1 present:
  fast mode leaves height 1 out, exactly as exhaustive mode does.
\<close>

theorem fast_mode_skips_present_height:
  "main_missing False [block_path [''blocks''] 1 \<mapsto> []] [''blocks''] 1 2 = [2]
   \<and> [1..2] = [1, 2 :: int]
   \<and> main_missing True [block_path [''blocks''] 1 \<mapsto> []] [''blocks''] 1 2 = [2]"
proof -
  have r: "[1..2] = [1, 2 :: int]"
    by (simp add: upto.simps)
  have p: "block_path [''blocks''] 1 \<noteq> block_path [''blocks''] 2"
    by (simp add: block_path_def entry_name_1_2)
  show ?thesis
    using p by (simp add: main_missing_filter r path_exists_def)
qed

section \<open>CacheScanner: results on the latest local height\<close>

text \<open>
  C5. The claim that both discovery functions return the numerically highest height present,
  evaluated on an archive holding heights 999 and 1000 in shard 0/0: \<open>find_cache_latest\<close>
  sorts the file names as strings, where \<open>999.rmp.lz4\<close> comes after \<open>1000.rmp.lz4\<close>, and
  returns 999, while \<open>find_latest_local_block\<close> returns 1000. With a non-numeric entry
  \<open>tmp.rmp.lz4\<close> beside height 1, \<open>find_cache_latest\<close> raises \<open>ValueError\<close> where
  \<open>find_latest_local_block\<close> skips the entry and returns 1.
\<close>

theorem find_cache_latest_lexical:
  "find_cache_latest
     (Dir [(''0'', Dir [(''0'', Dir [(''999.rmp.lz4'', File), (''1000.rmp.lz4'', File)])])])
     = Inr 999
   \<and> find_latest_local_block
     (Dir [(''0'', Dir [(''0'', Dir [(''999.rmp.lz4'', File), (''1000.rmp.lz4'', File)])])])
     = Inr 1000
   \<and> find_cache_latest
     (Dir [(''0'', Dir [(''0'', Dir [(''1.rmp.lz4'', File), (''tmp.rmp.lz4'', File)])])])
     = Inl ValueError
   \<and> find_latest_local_block
     (Dir [(''0'', Dir [(''0'', Dir [(''1.rmp.lz4'', File), (''tmp.rmp.lz4'', File)])])])
     = Inr 1"
proof (intro conjI)
  show "find_cache_latest
     (Dir [(''0'', Dir [(''0'', Dir [(''999.rmp.lz4'', File), (''1000.rmp.lz4'', File)])])])
     = Inr 999"
    by (simp add: find_cache_latest_def listdir_def sorted_key_int_def isdigit_def py_int_defs
        endswith_def remove_all.simps)
  show "find_latest_local_block
     (Dir [(''0'', Dir [(''0'', Dir [(''999.rmp.lz4'', File), (''1000.rmp.lz4'', File)])])])
     = Inr 1000"
    by (simp add: find_latest_local_block_def listdir_def for_digit_dirs_def isdigit_def
        scan_file_def path_suffix_def path_stem_def last_dot_def py_int_defs)
  show "find_cache_latest
     (Dir [(''0'', Dir [(''0'', Dir [(''1.rmp.lz4'', File), (''tmp.rmp.lz4'', File)])])])
     = Inl ValueError"
    by (simp add: find_cache_latest_def listdir_def sorted_key_int_def isdigit_def py_int_defs
        endswith_def remove_all.simps)
  show "find_latest_local_block
     (Dir [(''0'', Dir [(''0'', Dir [(''1.rmp.lz4'', File), (''tmp.rmp.lz4'', File)])])])
     = Inr 1"
    by (simp add: find_latest_local_block_def listdir_def for_digit_dirs_def isdigit_def
        scan_file_def path_suffix_def path_stem_def last_dot_def py_int_defs)
qed

end
